theory Spec2Isabelle
  imports Complex_Main "HOL-Library.List_Lexorder" "HOL-Library.Product_Lexorder"
begin

section \<open>Python values\<close>

text \<open>
  A Python \<^verbatim>\<open>str\<close> is a sequence of Unicode code points, so it is modelled as a list of
  naturals; \<open>len\<close> is \<open>length\<close> and \<open>ord\<close> is the element itself. \<open>str\<close> turns an
  ASCII literal into that form.
\<close>

type_synonym pystr = "nat list"

definition str :: "string \<Rightarrow> pystr" where
  "str s = map of_char s"

text \<open>The exceptions that the client code can let escape.\<close>

datatype pyerror =
    AttributeError | KeyError | IndexError | TypeError | ValueError | OverflowError
  | UnicodeEncodeError | JSONDecodeError | CookieError | ConnectionError
  | AuthenticationError

text \<open>
  What \<^verbatim>\<open>response.json()\<close> yields. \<open>JFloat r\<close> is a finite binary64 value, given by the
  real number it denotes; the literals \<^verbatim>\<open>NaN\<close> and \<^verbatim>\<open>Infinity\<close>, which are not JSON but
  which \<^verbatim>\<open>json.loads\<close> accepts, are left out. A JSON object is the list of its items in
  insertion order; a key is looked up with \<open>map_of\<close>.
\<close>

datatype json =
    JNull | JBool bool | JInt int | JFloat real | JStr pystr
  | JArr "json list" | JObj "(pystr \<times> json) list"

text \<open>
  The part of a \<^verbatim>\<open>requests.Response\<close> that the client reads: \<open>ok\<close> is the status
  test, \<open>body\<close> the decoded payload, \<open>None\<close> when the payload is not JSON.
\<close>

record response =
  ok :: bool
  body :: "json option"

definition py_bind :: "pyerror + 'a \<Rightarrow> ('a \<Rightarrow> pyerror + 'b) \<Rightarrow> pyerror + 'b" where
  "py_bind m f = (case m of Inl e \<Rightarrow> Inl e | Inr v \<Rightarrow> f v)"

fun py_mapM :: "('a \<Rightarrow> pyerror + 'b) \<Rightarrow> 'a list \<Rightarrow> pyerror + 'b list" where
  "py_mapM f [] = Inr []"
| "py_mapM f (x # xs) =
     (case f x of Inl e \<Rightarrow> Inl e
      | Inr y \<Rightarrow> (case py_mapM f xs of Inl e \<Rightarrow> Inl e | Inr ys \<Rightarrow> Inr (y # ys)))"

definition response_json :: "response \<Rightarrow> pyerror + json" where
  "response_json r = (case body r of None \<Rightarrow> Inl JSONDecodeError | Some j \<Rightarrow> Inr j)"

subsection \<open>Attribute and item access\<close>

text \<open>\<^verbatim>\<open>x.get(k, d)\<close>: only a dict has the method.\<close>

fun dict_get :: "json \<Rightarrow> pystr \<Rightarrow> json \<Rightarrow> pyerror + json" where
  "dict_get (JObj kvs) k d = Inr (case map_of kvs k of None \<Rightarrow> d | Some v \<Rightarrow> v)"
| "dict_get _ k d = Inl AttributeError"

text \<open>\<^verbatim>\<open>x[k]\<close> with a string \<open>k\<close>: a missing key of a dict is a KeyError, every other
  JSON value refuses a string subscript with a TypeError.\<close>

fun getitem_str :: "json \<Rightarrow> pystr \<Rightarrow> pyerror + json" where
  "getitem_str (JObj kvs) k = (case map_of kvs k of None \<Rightarrow> Inl KeyError | Some v \<Rightarrow> Inr v)"
| "getitem_str _ k = Inl TypeError"

text \<open>Iteration (\<^verbatim>\<open>for\<close>, \<^verbatim>\<open>filter\<close>, \<^verbatim>\<open>sorted\<close>): a list gives its elements, a dict its
  keys, a string its characters; nothing else is iterable.\<close>

fun py_iter :: "json \<Rightarrow> pyerror + json list" where
  "py_iter (JArr xs) = Inr xs"
| "py_iter (JObj kvs) = Inr (map (\<lambda>kv. JStr (fst kv)) kvs)"
| "py_iter (JStr s) = Inr (map (\<lambda>c. JStr [c]) s)"
| "py_iter _ = Inl TypeError"

subsection \<open>Comparison\<close>

text \<open>
  Python compares \<^verbatim>\<open>bool\<close>, \<^verbatim>\<open>int\<close> and \<^verbatim>\<open>float\<close> by numeric value
  (\<^verbatim>\<open>True == 1 == 1.0\<close>), strings by code points, lists element by element and dicts
  as sets of items. \<open>py_norm\<close> maps a value to a representative of its \<^verbatim>\<open>==\<close> class.
\<close>

fun num_of :: "json \<Rightarrow> real option" where
  "num_of (JBool b) = Some (if b then 1 else 0)"
| "num_of (JInt n) = Some (real_of_int n)"
| "num_of (JFloat r) = Some r"
| "num_of _ = None"

fun py_norm :: "json \<Rightarrow> json" where
  "py_norm JNull = JNull"
| "py_norm (JBool b) = JFloat (if b then 1 else 0)"
| "py_norm (JInt n) = JFloat (real_of_int n)"
| "py_norm (JFloat r) = JFloat r"
| "py_norm (JStr s) = JStr s"
| "py_norm (JArr xs) = JArr (map py_norm xs)"
| "py_norm (JObj kvs) = JObj (sort_key fst (map (\<lambda>kv. (fst kv, py_norm (snd kv))) kvs))"

definition py_eq :: "json \<Rightarrow> json \<Rightarrow> bool" where
  "py_eq a b = (py_norm a = py_norm b)"

text \<open>
  \<^verbatim>\<open>a < b\<close>: defined between numbers, between strings and between lists (the first
  position where the two differ decides; a tuple compares the same way, so the sort key
  \<^verbatim>\<open>(c, r)\<close> is written \<open>JArr [c, JInt r]\<close>). Everything else is a TypeError.
\<close>

fun py_lt :: "json \<Rightarrow> json \<Rightarrow> pyerror + bool"
  and py_lt_list :: "json list \<Rightarrow> json list \<Rightarrow> pyerror + bool" where
  "py_lt (JStr s) (JStr t) = Inr (s < t)"
| "py_lt (JArr xs) (JArr ys) = py_lt_list xs ys"
| "py_lt a b =
     (case (num_of a, num_of b) of (Some x, Some y) \<Rightarrow> Inr (x < y) | _ \<Rightarrow> Inl TypeError)"
| "py_lt_list [] [] = Inr False"
| "py_lt_list [] (y # ys) = Inr True"
| "py_lt_list (x # xs) [] = Inr False"
| "py_lt_list (x # xs) (y # ys) = (if py_eq x y then py_lt_list xs ys else py_lt x y)"

subsection \<open>Sorting with a key\<close>

text \<open>
  \<^verbatim>\<open>sorted(xs, key=f)\<close> and \<^verbatim>\<open>xs.sort(key=f)\<close> first compute the key of every element,
  in order, and then sort stably with \<^verbatim>\<open><\<close> on the keys; an exception of \<open>f\<close> or of
  \<^verbatim>\<open><\<close> propagates. The model is the stable insertion sort: an element is put in
  front of the first later element that is not less than it. Where \<^verbatim>\<open><\<close> orders the
  keys totally, every stable sort returns this list.
\<close>

fun py_insort :: "json \<times> 'a \<Rightarrow> (json \<times> 'a) list \<Rightarrow> pyerror + (json \<times> 'a) list" where
  "py_insort x [] = Inr [x]"
| "py_insort x (y # ys) =
     (case py_lt (fst y) (fst x) of
        Inl e \<Rightarrow> Inl e
      | Inr True \<Rightarrow>
          (case py_insort x ys of Inl e \<Rightarrow> Inl e | Inr zs \<Rightarrow> Inr (y # zs))
      | Inr False \<Rightarrow> Inr (x # y # ys))"

fun py_sort_keyed :: "(json \<times> 'a) list \<Rightarrow> pyerror + (json \<times> 'a) list" where
  "py_sort_keyed [] = Inr []"
| "py_sort_keyed (x # xs) =
     (case py_sort_keyed xs of Inl e \<Rightarrow> Inl e | Inr ys \<Rightarrow> py_insort x ys)"

definition py_sorted :: "('a \<Rightarrow> pyerror + json) \<Rightarrow> 'a list \<Rightarrow> pyerror + 'a list" where
  "py_sorted f xs =
     py_bind (py_mapM (\<lambda>x. py_bind (f x) (\<lambda>k. Inr (k, x))) xs)
       (\<lambda>kxs. py_bind (py_sort_keyed kxs) (\<lambda>s. Inr (map snd s)))"

section \<open>WeReadClient.get_notebooklist\<close>

text \<open>
  \<^verbatim>\<open>books.sort\<close> exists only on a list; the key \<^verbatim>\<open>x["sort"]\<close> is read from every element
  before any comparison. The failure branch prints and returns \<^verbatim>\<open>None\<close>.
\<close>

definition list_sort :: "(json \<Rightarrow> pyerror + json) \<Rightarrow> json \<Rightarrow> pyerror + json list" where
  "list_sort f books = (case books of JArr xs \<Rightarrow> py_sorted f xs | _ \<Rightarrow> Inl AttributeError)"

definition get_notebooklist :: "response \<Rightarrow> pyerror + json list option" where
  "get_notebooklist r =
     (if ok r then
        py_bind (response_json r) (\<lambda>data.
        py_bind (dict_get data (str ''books'') (JArr [])) (\<lambda>books.
        py_bind (list_sort (\<lambda>x. getitem_str x (str ''sort'')) books) (\<lambda>sorted_books.
        Inr (Some sorted_books))))
      else Inr None)"

section \<open>Strings, integers and bytes\<close>

text \<open>
  What the string functions take from the running interpreter. Its Unicode character
  database, for the code points above 127: \<open>decimal c\<close> is the digit value of a decimal
  digit (category Nd), \<open>isspace c\<close> holds for a whitespace character; the ASCII range is
  fixed by the definitions below and never read from the record. And its limit on the
  number of digits that \<^verbatim>\<open>int\<close> converts, \<^verbatim>\<open>sys.get_int_max_str_digits()\<close>: 4300 unless
  configured, 0 for no limit.
\<close>

record interpreter =
  decimal :: "nat \<Rightarrow> nat option"
  isspace :: "nat \<Rightarrow> bool"
  max_str_digits :: nat

definition decimal_value :: "interpreter \<Rightarrow> nat \<Rightarrow> nat option" where
  "decimal_value U c =
     (if 48 \<le> c \<and> c \<le> 57 then Some (c - 48) else if c < 128 then None else decimal U c)"

text \<open>
  \<^verbatim>\<open>re.match("^\\d*$", s)\<close> on a \<^verbatim>\<open>str\<close>: \<^verbatim>\<open>\d\<close> is any Unicode decimal digit, and \<^verbatim>\<open>$\<close>
  matches at the end of the string and also just before a newline that ends the string.
\<close>

definition re_match_digits :: "interpreter \<Rightarrow> pystr \<Rightarrow> bool" where
  "re_match_digits U s =
     (list_all (\<lambda>c. decimal_value U c \<noteq> None) s \<or>
      (s \<noteq> [] \<and> last s = 10 \<and> list_all (\<lambda>c. decimal_value U c \<noteq> None) (butlast s)))"

text \<open>
  \<^verbatim>\<open>int(s)\<close> on a \<^verbatim>\<open>str\<close>, base 10: whitespace is stripped at both ends (tab, newline,
  vertical tab, form feed, carriage return, space, and the non-ASCII whitespace), then
  comes an optional sign, then decimal digits in which single underscores may separate
  two digits. Anything else is a ValueError, and so is a literal of more than 640 digits
  that has more digits than the limit of the interpreter.
\<close>

datatype tok = D nat | Sp | Plus | Minus | Us | Bad

definition classify :: "interpreter \<Rightarrow> nat \<Rightarrow> tok" where
  "classify U c =
     (if c \<in> {9, 10, 11, 12, 13, 32} then Sp
      else if c = 43 then Plus
      else if c = 45 then Minus
      else if c = 95 then Us
      else (case decimal_value U c of
              Some d \<Rightarrow> D d
            | None \<Rightarrow> if 128 \<le> c \<and> isspace U c then Sp else Bad))"

fun int_digits :: "nat \<Rightarrow> tok list \<Rightarrow> nat option" where
  "int_digits acc [] = Some acc"
| "int_digits acc (D d # ts) = int_digits (10 * acc + d) ts"
| "int_digits acc (Us # D d # ts) = int_digits (10 * acc + d) ts"
| "int_digits acc _ = None"

definition int_literal :: "tok list \<Rightarrow> nat option" where
  "int_literal ts = (case ts of D d # r \<Rightarrow> int_digits d r | _ \<Rightarrow> None)"

definition strip_sp :: "tok list \<Rightarrow> tok list" where
  "strip_sp ts = rev (dropWhile (\<lambda>t. t = Sp) (rev (dropWhile (\<lambda>t. t = Sp) ts)))"

fun is_digit :: "tok \<Rightarrow> bool" where
  "is_digit (D d) = True"
| "is_digit _ = False"

definition over_limit :: "interpreter \<Rightarrow> tok list \<Rightarrow> bool" where
  "over_limit U ts =
     (let digits = length (filter is_digit ts)
      in 640 < digits \<and> 0 < max_str_digits U \<and> max_str_digits U < digits)"

definition int_value :: "interpreter \<Rightarrow> tok list \<Rightarrow> pyerror + nat" where
  "int_value U ts =
     (case int_literal ts of
        None \<Rightarrow> Inl ValueError
      | Some n \<Rightarrow> if over_limit U ts then Inl ValueError else Inr n)"

definition py_int :: "interpreter \<Rightarrow> pystr \<Rightarrow> pyerror + int" where
  "py_int U s =
     (case strip_sp (map (classify U) s) of
        Plus # r \<Rightarrow> (case int_value U r of Inl e \<Rightarrow> Inl e | Inr n \<Rightarrow> Inr (int n))
      | Minus # r \<Rightarrow> (case int_value U r of Inl e \<Rightarrow> Inl e | Inr n \<Rightarrow> Inr (- int n))
      | r \<Rightarrow> (case int_value U r of Inl e \<Rightarrow> Inl e | Inr n \<Rightarrow> Inr (int n)))"

text \<open>\<^verbatim>\<open>format(n, "x")\<close>: lowercase hexadecimal, no padding, a minus sign for a negative.\<close>

definition hex_digit :: "nat \<Rightarrow> nat" where
  "hex_digit d = (if d < 10 then 48 + d else 87 + d)"

function hex_nat :: "nat \<Rightarrow> pystr" where
  "hex_nat n = (if n < 16 then [hex_digit n] else hex_nat (n div 16) @ [hex_digit (n mod 16)])"
  by pat_completeness auto
termination
  by (relation "measure (\<lambda>n. n)") auto

declare hex_nat.simps [simp del]

definition format_x :: "int \<Rightarrow> pystr" where
  "format_x v = (if v < 0 then 45 # hex_nat (nat (- v)) else hex_nat (nat v))"

text \<open>\<^verbatim>\<open>s[i:j]\<close> for indices that are not negative.\<close>

definition slice :: "'a list \<Rightarrow> nat \<Rightarrow> nat \<Rightarrow> 'a list" where
  "slice s i j = take (j - i) (drop i s)"

text \<open>
  \<^verbatim>\<open>s.encode("utf-8")\<close>: every code point becomes one to four bytes; a surrogate code
  point (U+D800 to U+DFFF) has no encoding and raises UnicodeEncodeError.
\<close>

definition utf8_char :: "nat \<Rightarrow> nat list" where
  "utf8_char c =
     (if c < 128 then [c]
      else if c < 2048 then [192 + c div 64, 128 + c mod 64]
      else if c < 65536 then [224 + c div 4096, 128 + (c div 64) mod 64, 128 + c mod 64]
      else [240 + c div 262144, 128 + (c div 4096) mod 64, 128 + (c div 64) mod 64,
            128 + c mod 64])"

definition utf8 :: "pystr \<Rightarrow> nat list" where
  "utf8 s = concat (map utf8_char s)"

definition is_surrogate :: "nat \<Rightarrow> bool" where
  "is_surrogate c = (55296 \<le> c \<and> c \<le> 57343)"

definition encode_utf8 :: "pystr \<Rightarrow> pyerror + nat list" where
  "encode_utf8 s = (if list_ex is_surrogate s then Inl UnicodeEncodeError else Inr (utf8 s))"

section \<open>WeReadClient.transform_id\<close>

text \<open>The loop \<^verbatim>\<open>for i in range(0, id_length, 9)\<close>, with \<open>ary\<close> as accumulator.\<close>

function numeric_loop :: "interpreter \<Rightarrow> pystr \<Rightarrow> nat \<Rightarrow> pystr list \<Rightarrow> pyerror + pystr list" where
  "numeric_loop U book_id i ary =
     (if i < length book_id then
        (case py_int U (slice book_id i (min (i + 9) (length book_id))) of
           Inl e \<Rightarrow> Inl e
         | Inr v \<Rightarrow> numeric_loop U book_id (i + 9) (ary @ [format_x v]))
      else Inr ary)"
  by pat_completeness auto
termination
  by (relation "measure (\<lambda>(U, book_id, i, ary). length book_id - i)") auto

declare numeric_loop.simps [simp del]

definition transform_id :: "interpreter \<Rightarrow> pystr \<Rightarrow> pyerror + pystr \<times> pystr list" where
  "transform_id U book_id =
     (if re_match_digits U book_id then
        (case numeric_loop U book_id 0 [] of
           Inl e \<Rightarrow> Inl e
         | Inr ary \<Rightarrow> Inr (str ''3'', ary))
      else
        Inr (str ''4'',
             [fold (\<lambda>i result. result @ format_x (int (book_id ! i)))
                [0..<length book_id] []]))"

section \<open>WeReadClient.calculate_book_str_id\<close>

text \<open>
  \<open>md5\<close> stands for \<^verbatim>\<open>hashlib.md5(bytes).hexdigest()\<close>: the digest of a byte string as
  text. The function is a parameter of the model, and nothing is assumed about it.
\<close>

definition segment_step :: "pystr list \<Rightarrow> nat \<Rightarrow> pystr \<Rightarrow> pystr" where
  "segment_step transformed_ids i result =
     (let hex_length_str = format_x (int (length (transformed_ids ! i)));
          hex_length_str =
            (if length hex_length_str = 1 then str ''0'' @ hex_length_str else hex_length_str);
          result = result @ hex_length_str @ transformed_ids ! i
      in if int i < int (length transformed_ids) - 1 then result @ str ''g'' else result)"

definition calculate_book_str_id ::
    "(nat list \<Rightarrow> string) \<Rightarrow> interpreter \<Rightarrow> pystr \<Rightarrow> pyerror + pystr" where
  "calculate_book_str_id md5 U book_id =
     py_bind (encode_utf8 book_id) (\<lambda>bytes.
       let digest = str (md5 bytes);
           result = take 3 digest
       in py_bind (transform_id U book_id) (\<lambda>(code, transformed_ids).
            let result = result @ code @ str ''2'' @ drop (length digest - 2) digest;
                result = fold (segment_step transformed_ids)
                           [0..<length transformed_ids] result;
                result = (if length result < 20
                          then result @ take (20 - length result) digest else result)
            in py_bind (encode_utf8 result) (\<lambda>bytes.
                 Inr (result @ take 3 (str (md5 bytes))))))"

section \<open>WeReadClient.get_bookmark_list\<close>

text \<open>
  The sort key \<^verbatim>\<open>(x.get("chapterUid", 1), int(x.get("range", "0-0").split("-")[0] or 0))\<close>.
  \<^verbatim>\<open>split\<close> exists only on a string, and the part before the first \<^verbatim>\<open>-\<close> is the first
  element of its result. An empty part is falsy, so \<^verbatim>\<open>or 0\<close> replaces it by the integer 0.
\<close>

definition split_first :: "json \<Rightarrow> pyerror + pystr" where
  "split_first v = (case v of JStr s \<Rightarrow> Inr (takeWhile (\<lambda>c. c \<noteq> 45) s) | _ \<Rightarrow> Inl AttributeError)"

definition bookmark_key :: "interpreter \<Rightarrow> json \<Rightarrow> pyerror + json" where
  "bookmark_key U x =
     py_bind (dict_get x (str ''chapterUid'') (JInt 1)) (\<lambda>c.
     py_bind (dict_get x (str ''range'') (JStr (str ''0-0''))) (\<lambda>rg.
     py_bind (split_first rg) (\<lambda>s.
     py_bind (if s = [] then Inr 0 else py_int U s) (\<lambda>start.
     Inr (JArr [c, JInt start])))))"

definition get_bookmark_list :: "interpreter \<Rightarrow> response \<Rightarrow> pyerror + json list option" where
  "get_bookmark_list U r =
     (if ok r then
        py_bind (response_json r) (\<lambda>data.
        py_bind (dict_get data (str ''updated'') (JArr [])) (\<lambda>updated.
        py_bind (py_iter updated) (\<lambda>items.
        py_bind (py_sorted (bookmark_key U) items) (\<lambda>updated.
        Inr (Some updated)))))
      else Inr None)"

section \<open>WeReadClient.get_bookinfo\<close>

text \<open>
  A Python \<^verbatim>\<open>float\<close> is a binary64 number. \<open>binary64 x\<close> is the binary64 value nearest to
  the real \<open>x\<close>, ties going to the even significand: with \<open>e\<close> the binary exponent of
  \<open>x\<close>, not below \<open>- 1022\<close> where the subnormal numbers start, the values around \<open>x\<close> are
  the multiples of \<open>2 ^ (e - 52)\<close>. \<open>exp_up\<close> and \<open>exp_down\<close> find the exponent by halving
  and by doubling.
\<close>

definition round_half_even :: "real \<Rightarrow> int" where
  "round_half_even x =
     (let f = \<lfloor>x\<rfloor>; d = x - of_int f
      in if d < 1 / 2 then f else if 1 / 2 < d then f + 1 else if even f then f else f + 1)"

function exp_up :: "real \<Rightarrow> int \<Rightarrow> int" where
  "exp_up a e = (if 2 \<le> a then exp_up (a / 2) (e + 1) else e)"
  by pat_completeness auto
termination
proof (relation "measure (\<lambda>(a, e). nat \<lfloor>a\<rfloor>)")
  show "wf (measure (\<lambda>(a, e). nat \<lfloor>a\<rfloor>))" by simp
next
  fix a :: real and e :: int
  assume a: "2 \<le> a"
  have "\<lfloor>a / 2\<rfloor> \<le> \<lfloor>a - 1\<rfloor>" using a by (intro floor_mono) simp
  then have "\<lfloor>a / 2\<rfloor> < \<lfloor>a\<rfloor>" by simp
  moreover from a have "0 < \<lfloor>a\<rfloor>" by simp
  ultimately show "((a / 2, e + 1), (a, e)) \<in> measure (\<lambda>(a, e). nat \<lfloor>a\<rfloor>)"
    by simp
qed

function exp_down :: "real \<Rightarrow> int \<Rightarrow> int" where
  "exp_down a e = (if a < 1 \<and> - 1022 < e then exp_down (2 * a) (e - 1) else e)"
  by pat_completeness auto
termination
  by (relation "measure (\<lambda>(a, e). nat (e + 1022))") auto

declare exp_up.simps [simp del] exp_down.simps [simp del]

definition pow2 :: "int \<Rightarrow> real" where
  "pow2 k = (if 0 \<le> k then 2 ^ nat k else 1 / 2 ^ nat (- k))"

definition binary64 :: "real \<Rightarrow> real" where
  "binary64 x =
     (if x = 0 then 0
      else
        let e = (if 2 \<le> \<bar>x\<bar> then exp_up \<bar>x\<bar> 0 else exp_down \<bar>x\<bar> 0);
            ulp = pow2 (e - 52)
        in of_int (round_half_even (x / ulp)) * ulp)"

text \<open>
  \<^verbatim>\<open>v / 1000\<close> is true division: defined on \<^verbatim>\<open>bool\<close>, \<^verbatim>\<open>int\<close> and \<^verbatim>\<open>float\<close>, a TypeError
  on everything else. The result is the exact quotient rounded to binary64. The quotient
  of an \<^verbatim>\<open>int\<close> raises OverflowError when the rounded value is out of the range of a
  \<^verbatim>\<open>float\<close>, that is from \<open>2 ^ 1024\<close> on; \<^verbatim>\<open>True\<close> and \<^verbatim>\<open>False\<close> are the integers 1 and 0.
\<close>

definition int_truediv_1000 :: "int \<Rightarrow> pyerror + real" where
  "int_truediv_1000 n =
     (let q = binary64 (real_of_int n / 1000)
      in if 2 ^ 1024 \<le> \<bar>q\<bar> then Inl OverflowError else Inr q)"

definition truediv_1000 :: "json \<Rightarrow> pyerror + real" where
  "truediv_1000 v =
     (case v of
        JInt n \<Rightarrow> int_truediv_1000 n
      | JBool b \<Rightarrow> int_truediv_1000 (if b then 1 else 0)
      | JFloat x \<Rightarrow> Inr (binary64 (x / 1000))
      | _ \<Rightarrow> Inl TypeError)"

text \<open>The failure branch prints and returns the defaults.\<close>

definition get_bookinfo :: "response \<Rightarrow> pyerror + json \<times> json" where
  "get_bookinfo r =
     (if ok r then
        py_bind (response_json r) (\<lambda>data.
        py_bind (dict_get data (str ''isbn'') (JStr (str ''''))) (\<lambda>isbn.
        py_bind (dict_get data (str ''newRating'') (JInt 0)) (\<lambda>v.
        py_bind (truediv_1000 v) (\<lambda>new_rating.
        Inr (isbn, JFloat new_rating)))))
      else Inr (JStr (str ''''), JInt 0))"

section \<open>WeReadClient.get_review_list\<close>

fun py_filterM :: "('a \<Rightarrow> pyerror + bool) \<Rightarrow> 'a list \<Rightarrow> pyerror + 'a list" where
  "py_filterM p [] = Inr []"
| "py_filterM p (x # xs) =
     (case p x of Inl e \<Rightarrow> Inl e
      | Inr b \<Rightarrow> (case py_filterM p xs of Inl e \<Rightarrow> Inl e
                  | Inr ys \<Rightarrow> Inr (if b then x # ys else ys)))"

text \<open>The filter predicate \<^verbatim>\<open>x.get("review", {}).get("type") == n\<close>.\<close>

definition review_type_is :: "int \<Rightarrow> json \<Rightarrow> pyerror + bool" where
  "review_type_is n x =
     py_bind (dict_get x (str ''review'') (JObj [])) (\<lambda>review.
     py_bind (dict_get review (str ''type'') JNull) (\<lambda>t.
     Inr (py_eq t (JInt n))))"

text \<open>
  \<^verbatim>\<open>x.pop(k)\<close> returns the value and removes the key from \<open>x\<close>; the second component is
  \<open>x\<close> afterwards. \<^verbatim>\<open>d[k] = v\<close> replaces the value of a key that is present and appends the
  key otherwise.
\<close>

fun dict_pop :: "json \<Rightarrow> pystr \<Rightarrow> pyerror + json \<times> json" where
  "dict_pop (JObj kvs) k =
     (case map_of kvs k of
        None \<Rightarrow> Inl KeyError
      | Some v \<Rightarrow> Inr (v, JObj (filter (\<lambda>kv. fst kv \<noteq> k) kvs)))"
| "dict_pop _ k = Inl AttributeError"

fun dict_setitem :: "(pystr \<times> json) list \<Rightarrow> pystr \<Rightarrow> json \<Rightarrow> (pystr \<times> json) list" where
  "dict_setitem [] k v = [(k, v)]"
| "dict_setitem (kv # kvs) k v =
     (if fst kv = k then (k, v) # kvs else kv # dict_setitem kvs k v)"

text \<open>
  The dict display \<^verbatim>\<open>{**x, "markText": x.pop("content")}\<close>. Its items are evaluated from
  left to right (CPython 3.9 and later; the \<^verbatim>\<open>fastmcp\<close> package that the repository
  imports needs 3.10): the items of \<open>x\<close> are first copied into the new
  dict, \<open>content\<close> among them; then \<^verbatim>\<open>x.pop("content")\<close> removes the key from \<open>x\<close>, not
  from the copy; then \<open>markText\<close> is stored in the new dict. \<open>x\<close> itself is not returned.
\<close>

definition rename_content :: "json \<Rightarrow> pyerror + json" where
  "rename_content x =
     (case x of
        JObj kvs \<Rightarrow>
          py_bind (dict_pop x (str ''content'')) (\<lambda>(v, x_after).
          Inr (JObj (dict_setitem kvs (str ''markText'') v)))
      | _ \<Rightarrow> Inl TypeError)"

definition get_review_list :: "response \<Rightarrow> pyerror + json list \<times> json list" where
  "get_review_list r =
     (if \<not> ok r then Inr ([], [])
      else
        py_bind (response_json r) (\<lambda>data.
        py_bind (dict_get data (str ''reviews'') (JArr [])) (\<lambda>reviews.
        py_bind (py_iter reviews) (\<lambda>items.
        py_bind (py_filterM (review_type_is 4) items) (\<lambda>summary.
        py_bind (py_filterM (review_type_is 1) items) (\<lambda>reviews.
        py_bind (py_mapM (\<lambda>x. dict_get x (str ''review'') JNull) reviews) (\<lambda>reviews.
        py_bind (py_mapM rename_content reviews) (\<lambda>reviews.
        Inr (summary, reviews)))))))))"

section \<open>WeReadClient.get_chapter_info\<close>

text \<open>
  \<^verbatim>\<open>k in v\<close> for a string \<open>k\<close>: key membership on a dict, element membership on a list,
  substring test on a string, TypeError on everything else.
\<close>

fun tails :: "'a list \<Rightarrow> 'a list list" where
  "tails [] = [[]]"
| "tails (x # xs) = (x # xs) # tails xs"

fun py_contains :: "json \<Rightarrow> pystr \<Rightarrow> pyerror + bool" where
  "py_contains (JObj kvs) k = Inr (map_of kvs k \<noteq> None)"
| "py_contains (JArr xs) k = Inr (list_ex (\<lambda>x. py_eq x (JStr k)) xs)"
| "py_contains (JStr s) k = Inr (list_ex (\<lambda>t. take (length k) t = k) (tails s))"
| "py_contains _ k = Inl TypeError"

fun py_len :: "json \<Rightarrow> pyerror + nat" where
  "py_len (JObj kvs) = Inr (length kvs)"
| "py_len (JArr xs) = Inr (length xs)"
| "py_len (JStr s) = Inr (length s)"
| "py_len _ = Inl TypeError"

text \<open>\<^verbatim>\<open>v[0]\<close>: no key of a JSON object is the integer 0.\<close>

fun getitem_0 :: "json \<Rightarrow> pyerror + json" where
  "getitem_0 (JArr []) = Inl IndexError"
| "getitem_0 (JArr (x # xs)) = Inr x"
| "getitem_0 (JStr []) = Inl IndexError"
| "getitem_0 (JStr (c # s)) = Inr (JStr [c])"
| "getitem_0 (JObj kvs) = Inl KeyError"
| "getitem_0 _ = Inl TypeError"

text \<open>
  The result dict is keyed by the \<open>chapterUid\<close> values. A dict key must be hashable (a
  list or a dict is a TypeError), and keys that are equal under \<^verbatim>\<open>==\<close> are the same key,
  so the model keys the mapping by \<open>py_norm\<close> of the value. A later item replaces an
  earlier one that has the same key.
\<close>

definition hashable :: "json \<Rightarrow> bool" where
  "hashable k = (case k of JArr xs \<Rightarrow> False | JObj kvs \<Rightarrow> False | _ \<Rightarrow> True)"

definition chapter_step ::
    "json \<Rightarrow> (json \<rightharpoonup> json) \<Rightarrow> pyerror + (json \<rightharpoonup> json)" where
  "chapter_step item m =
     py_bind (getitem_str item (str ''chapterUid'')) (\<lambda>k.
     if hashable k then Inr (m(py_norm k \<mapsto> item)) else Inl TypeError)"

fun chapter_dict :: "json list \<Rightarrow> (json \<rightharpoonup> json) \<Rightarrow> pyerror + (json \<rightharpoonup> json)" where
  "chapter_dict [] m = Inr m"
| "chapter_dict (item # items) m =
     (case chapter_step item m of Inl e \<Rightarrow> Inl e | Inr m' \<Rightarrow> chapter_dict items m')"

text \<open>The condition of the \<^verbatim>\<open>if\<close>, evaluated from left to right with short circuit.\<close>

definition chapter_info_cond :: "response \<Rightarrow> pyerror + bool" where
  "chapter_info_cond r =
     (if \<not> ok r then Inr False
      else
        py_bind (response_json r) (\<lambda>j.
        py_bind (py_contains j (str ''data'')) (\<lambda>has_data.
        if \<not> has_data then Inr False
        else
          py_bind (getitem_str j (str ''data'')) (\<lambda>data.
          py_bind (py_len data) (\<lambda>n.
          if n \<noteq> 1 then Inr False
          else
            py_bind (getitem_0 data) (\<lambda>d0.
            py_contains d0 (str ''updated'')))))))"

definition get_chapter_info :: "response \<Rightarrow> pyerror + (json \<rightharpoonup> json) option" where
  "get_chapter_info r =
     py_bind (chapter_info_cond r) (\<lambda>c.
     if c then
       py_bind (response_json r) (\<lambda>j.
       py_bind (getitem_str j (str ''data'')) (\<lambda>data.
       py_bind (getitem_0 data) (\<lambda>d0.
       py_bind (getitem_str d0 (str ''updated'')) (\<lambda>update.
       py_bind (py_iter update) (\<lambda>items.
       py_bind (chapter_dict items Map.empty) (\<lambda>m.
       Inr (Some m)))))))
     else Inr None)"

section \<open>WeReadClient.__init__\<close>

text \<open>
  \<open>load\<close> stands for \<^verbatim>\<open>SimpleCookie.load\<close> followed by \<^verbatim>\<open>items()\<close>: the name and value of
  every cookie the string holds, in order, or the CookieError that \<^verbatim>\<open>load\<close> raises on an
  illegal cookie name. It is a parameter of the model; only the empty string is fixed,
  which holds no cookie. The jar is \<open>None\<close> when the loop over the cookies never runs.
\<close>

type_synonym cookiejar = "(pystr \<times> pystr) list"

definition cookie_items ::
    "(pystr \<Rightarrow> pyerror + (pystr \<times> pystr) list) \<Rightarrow> pystr \<Rightarrow> pyerror + (pystr \<times> pystr) list" where
  "cookie_items load cookie_string = (if cookie_string = [] then Inr [] else load cookie_string)"

fun cookies_setitem :: "cookiejar \<Rightarrow> pystr \<Rightarrow> pystr \<Rightarrow> cookiejar" where
  "cookies_setitem [] k v = [(k, v)]"
| "cookies_setitem (kv # kvs) k v =
     (if fst kv = k then (k, v) # kvs else kv # cookies_setitem kvs k v)"

definition parse_cookie_string ::
    "(pystr \<Rightarrow> pyerror + (pystr \<times> pystr) list) \<Rightarrow> pystr \<Rightarrow> pyerror + cookiejar option" where
  "parse_cookie_string load cookie_string =
     py_bind (cookie_items load cookie_string) (\<lambda>items.
     Inr (snd (fold (\<lambda>(key, v) (cookies_dict, cookiejar).
                       let cookies_dict = cookies_setitem cookies_dict key v
                       in (cookies_dict, Some cookies_dict))
                 items ([], None))))"

text \<open>
  \<^verbatim>\<open>session.get(url)\<close> of the \<^verbatim>\<open>requests\<close> library. \<open>send\<close> stands for the transport: it
  takes the cookies of the session and returns the response of the server or raises, a
  ConnectionError for instance; it is a parameter of the model. When the response has
  arrived, the session stores the cookies that the response sets with
  \<^verbatim>\<open>self.cookies.extract_cookies\<close>, which is an AttributeError when \<^verbatim>\<open>self.cookies\<close> is
  \<^verbatim>\<open>None\<close>.
\<close>

definition session_get ::
    "(cookiejar option \<Rightarrow> pyerror + response) \<Rightarrow> cookiejar option \<Rightarrow> pyerror + response" where
  "session_get send jar =
     py_bind (send jar) (\<lambda>r. case jar of None \<Rightarrow> Inl AttributeError | Some j \<Rightarrow> Inr r)"

text \<open>The client keeps the session; of the session the model keeps the cookies it was given.\<close>

record client =
  cookies :: "cookiejar option"

definition WeReadClient_init ::
    "(pystr \<Rightarrow> pyerror + (pystr \<times> pystr) list) \<Rightarrow> (cookiejar option \<Rightarrow> pyerror + response)
      \<Rightarrow> pystr \<Rightarrow> pyerror + client" where
  "WeReadClient_init load send cookie_string =
     py_bind (parse_cookie_string load cookie_string) (\<lambda>jar.
       let self = \<lparr>cookies = jar\<rparr>
       in py_bind (session_get send (cookies self)) (\<lambda>probe. Inr self))"

section \<open>Well-formed payloads\<close>

text \<open>
  The shape of an entry of the review list on which neither filter and neither map
  raises: the entry is a dict; its \<open>review\<close> field, when present, is a dict; and a review
  whose \<open>type\<close> equals 1 has a \<open>content\<close> field.
\<close>

definition review_ok :: "json \<Rightarrow> bool" where
  "review_ok x =
     (case x of
        JObj w \<Rightarrow>
          (case map_of w (str ''review'') of
             None \<Rightarrow> True
           | Some (JObj rv) \<Rightarrow>
               (case map_of rv (str ''type'') of
                  None \<Rightarrow> True
                | Some t \<Rightarrow> \<not> py_eq t (JInt 1) \<or> map_of rv (str ''content'') \<noteq> None)
           | Some _ \<Rightarrow> False)
      | _ \<Rightarrow> False)"

text \<open>
  An item of the \<open>updated\<close> list from which the dict comprehension of
  \<open>get_chapter_info\<close> can take a key: a dict with a hashable \<open>chapterUid\<close>. \<open>chapter_key\<close>
  is the key under which the item is stored.
\<close>

definition item_ok :: "json \<Rightarrow> bool" where
  "item_ok item =
     (case item of
        JObj kv \<Rightarrow> (case map_of kv (str ''chapterUid'') of Some k \<Rightarrow> hashable k | None \<Rightarrow> False)
      | _ \<Rightarrow> False)"

definition chapter_key :: "json \<Rightarrow> json" where
  "chapter_key item =
     (case getitem_str item (str ''chapterUid'') of Inr k \<Rightarrow> py_norm k | Inl e \<Rightarrow> JNull)"

text \<open>
  The ordering of the bookmarks in the words of the specification: \<open>chapterUid\<close>, taken
  as 1 when the field is absent or not an integer, then the start of \<open>range\<close>, taken as 0
  when the field is absent or its first part is not an integer literal. \<open>bookmark_ok\<close>
  holds for the entries on which no default for a malformed field is needed: a dict whose
  \<open>chapterUid\<close> is absent or an integer and whose \<open>range\<close> is absent or a string that
  starts with nothing or with an integer literal before the first \<^verbatim>\<open>-\<close>.
\<close>

definition chapter_uid :: "json \<Rightarrow> int" where
  "chapter_uid x =
     (case dict_get x (str ''chapterUid'') (JInt 1) of Inr (JInt c) \<Rightarrow> c | _ \<Rightarrow> 1)"

definition range_start :: "interpreter \<Rightarrow> json \<Rightarrow> int" where
  "range_start U x =
     (case dict_get x (str ''range'') (JStr (str ''0-0'')) of
        Inr (JStr s) \<Rightarrow>
          (case py_int U (takeWhile (\<lambda>c. c \<noteq> 45) s) of Inr v \<Rightarrow> v | Inl e \<Rightarrow> 0)
      | _ \<Rightarrow> 0)"

definition bookmark_ok :: "interpreter \<Rightarrow> json \<Rightarrow> bool" where
  "bookmark_ok U x =
     (case x of
        JObj kv \<Rightarrow>
          (case map_of kv (str ''chapterUid'') of
             None \<Rightarrow> True | Some (JInt c) \<Rightarrow> True | Some _ \<Rightarrow> False) \<and>
          (case map_of kv (str ''range'') of
             None \<Rightarrow> True
           | Some (JStr s) \<Rightarrow>
               takeWhile (\<lambda>c. c \<noteq> 45) s = [] \<or>
               (case py_int U (takeWhile (\<lambda>c. c \<noteq> 45) s) of Inr v \<Rightarrow> True | Inl e \<Rightarrow> False)
           | Some _ \<Rightarrow> False)
      | _ \<Rightarrow> False)"

text \<open>
  An interpreter with the default digit limit whose character database has no digit and
  no whitespace above 127, for the examples: their strings are ASCII, where the database
  is not consulted.
\<close>

definition ascii_only :: interpreter where
  "ascii_only = \<lparr>decimal = (\<lambda>c. None), isspace = (\<lambda>c. False), max_str_digits = 4300\<rparr>"

section \<open>The identifier encoding in the words of the specification\<close>

text \<open>
  The numeric mode: the identifier is cut from the left into chunks of at most 9
  characters, each chunk is read as a base-10 number and written in lowercase
  hexadecimal. \<open>digit_of\<close> is the value of a decimal digit, and \<open>base10\<close> the number that
  a string of digits denotes.
\<close>

definition is_decimal :: "interpreter \<Rightarrow> nat \<Rightarrow> bool" where
  "is_decimal U c = (decimal_value U c \<noteq> None)"

definition ascii_digit :: "nat \<Rightarrow> bool" where
  "ascii_digit c = (48 \<le> c \<and> c \<le> 57)"

definition digit_of :: "interpreter \<Rightarrow> nat \<Rightarrow> nat" where
  "digit_of U c = (case decimal_value U c of Some d \<Rightarrow> d | None \<Rightarrow> 0)"

definition base10 :: "interpreter \<Rightarrow> pystr \<Rightarrow> nat" where
  "base10 U s = foldl (\<lambda>a c. 10 * a + digit_of U c) 0 s"

function chunks_of :: "nat \<Rightarrow> 'a list \<Rightarrow> 'a list list" where
  "chunks_of n xs = (if n = 0 \<or> xs = [] then [] else take n xs # chunks_of n (drop n xs))"
  by pat_completeness auto
termination
  by (relation "measure (\<lambda>(n, xs). length xs)") auto

declare chunks_of.simps [simp del]

definition numeric_segments :: "interpreter \<Rightarrow> pystr \<Rightarrow> pystr list" where
  "numeric_segments U book_id = map (\<lambda>chunk. hex_nat (base10 U chunk)) (chunks_of 9 book_id)"

text \<open>The generic mode: the hexadecimal code points of all characters, concatenated.\<close>

definition generic_segment :: "pystr \<Rightarrow> pystr" where
  "generic_segment book_id = concat (map hex_nat book_id)"

text \<open>
  Steps 5 to 8: the head built from the digest and the mode code; every segment with its
  length in hexadecimal, padded with zeros to two digits, in front, and \<^verbatim>\<open>g\<close> between two
  segments; the padding to 20 characters from the start of the digest; and the first
  three characters of the digest of the result.
\<close>

definition length_prefix :: "pystr \<Rightarrow> pystr" where
  "length_prefix s =
     (let h = hex_nat (length s) in replicate (2 - length h) (of_char CHR ''0'') @ h)"

fun join_segments :: "pystr list \<Rightarrow> pystr" where
  "join_segments [] = []"
| "join_segments [s] = length_prefix s @ s"
| "join_segments (s # t # ss) = length_prefix s @ s @ str ''g'' @ join_segments (t # ss)"

definition web_identifier ::
    "(nat list \<Rightarrow> string) \<Rightarrow> pystr \<Rightarrow> pystr \<Rightarrow> pystr list \<Rightarrow> pystr" where
  "web_identifier md5 digest code segments =
     (let head = take 3 digest @ code @ str ''2'' @ drop (length digest - 2) digest
                   @ join_segments segments;
          padded = (if length head < 20 then head @ take (20 - length head) digest else head)
      in padded @ take 3 (str (md5 (utf8 padded))))"

text \<open>
  An interpreter whose character database knows the Arabic-Indic digits U+0660 to U+0669
  and no other character above 127.
\<close>

definition arabic_indic :: interpreter where
  "arabic_indic =
     \<lparr>decimal = (\<lambda>c. if 1632 \<le> c \<and> c \<le> 1641 then Some (c - 1632) else None),
      isspace = (\<lambda>c. False), max_str_digits = 4300\<rparr>"

section \<open>Properties\<close>

subsection \<open>Exceptions of a key function reach the caller of a sort\<close>

lemma py_mapM_Inl: "x \<in> set xs \<Longrightarrow> f x = Inl e \<Longrightarrow> \<exists>e'. py_mapM f xs = Inl e'"
  by (induction xs) (auto split: sum.splits)

lemma py_sorted_key_raises:
  "x \<in> set xs \<Longrightarrow> f x = Inl e \<Longrightarrow> \<exists>e'. py_sorted f xs = Inl e'"
  using py_mapM_Inl [of x xs "\<lambda>x. py_bind (f x) (\<lambda>k. Inr (k, x))"]
  by (auto simp: py_sorted_def py_bind_def)

subsection \<open>get_notebooklist\<close>

text \<open>
  C10. \<open>get_notebooklist\<close> returns the unavailable result \<open>None\<close> exactly for the
  responses whose status is not a success. On a success response the key \<^verbatim>\<open>x["sort"]\<close>
  is read from every book record, without a default: whenever the body is an object whose
  \<open>books\<close> list holds a record that has no \<open>sort\<close> key, the call raises an exception and
  returns neither a sequence nor \<open>None\<close>.
\<close>

theorem get_notebooklist_sort_key_unconditional:
  "(get_notebooklist r = Inr None \<longleftrightarrow> \<not> ok r) \<and>
   (ok r \<and> body r = Some (JObj kvs) \<and> map_of kvs (str ''books'') = Some (JArr xs) \<and>
    JObj b \<in> set xs \<and> map_of b (str ''sort'') = None
    \<longrightarrow> (\<exists>e. get_notebooklist r = Inl e))"
proof (intro conjI impI)
  show "get_notebooklist r = Inr None \<longleftrightarrow> \<not> ok r"
    by (auto simp: get_notebooklist_def py_bind_def split: sum.splits)
next
  assume a: "ok r \<and> body r = Some (JObj kvs) \<and> map_of kvs (str ''books'') = Some (JArr xs) \<and>
    JObj b \<in> set xs \<and> map_of b (str ''sort'') = None"
  then have "getitem_str (JObj b) (str ''sort'') = Inl KeyError" by simp
  with a obtain e where "py_sorted (\<lambda>x. getitem_str x (str ''sort'')) xs = Inl e"
    using py_sorted_key_raises [of "JObj b" xs "\<lambda>x. getitem_str x (str ''sort'')" KeyError]
    by auto
  with a show "\<exists>e. get_notebooklist r = Inl e"
    by (simp add: get_notebooklist_def py_bind_def response_json_def list_sort_def)
qed

text \<open>The success response \<^verbatim>\<open>{"books": [{}]}\<close> raises KeyError; a failed request gives \<open>None\<close>.\<close>

theorem get_notebooklist_sort_key_unconditional_witness:
  "get_notebooklist \<lparr>ok = True, body = Some (JObj [(str ''books'', JArr [JObj []])])\<rparr>
     = Inl KeyError
   \<and> get_notebooklist \<lparr>ok = False, body = None\<rparr> = Inr None"
  using get_notebooklist_sort_key_unconditional
    [of "\<lparr>ok = True, body = Some (JObj [(str ''books'', JArr [JObj []])])\<rparr>"
        "[(str ''books'', JArr [JObj []])]" "[JObj []]" "[]"]
    get_notebooklist_sort_key_unconditional [of "\<lparr>ok = False, body = None\<rparr>" "[]" "[]" "[]"]
  by (simp add: get_notebooklist_def py_bind_def response_json_def list_sort_def
        py_sorted_def str_def)

subsection \<open>Monadic list traversals\<close>

lemma py_mapM_Inr_iff:
  "py_mapM f xs = Inr ys \<longleftrightarrow> list_all2 (\<lambda>x y. f x = Inr y) xs ys"
proof (induction xs arbitrary: ys)
  case Nil
  then show ?case by auto
next
  case (Cons x xs)
  show ?case
    by (auto simp: list_all2_Cons1 Cons.IH [symmetric] split: sum.splits)
qed

lemma py_filterM_total:
  "\<forall>x\<in>set xs. \<exists>b. p x = Inr b \<Longrightarrow> py_filterM p xs = Inr (filter (\<lambda>x. p x = Inr True) xs)"
  by (induction xs) auto

lemma py_filterM_Inr:
  "py_filterM p xs = Inr ys \<Longrightarrow>
     ys = filter (\<lambda>x. p x = Inr True) xs \<and> (\<forall>x\<in>set xs. \<exists>b. p x = Inr b)"
proof (induction xs arbitrary: ys)
  case Nil
  then show ?case by simp
next
  case (Cons x xs)
  from Cons.prems obtain b zs where b: "p x = Inr b" and zs: "py_filterM p xs = Inr zs"
    and ys: "ys = (if b then x # zs else zs)"
    by (auto split: sum.splits)
  from Cons.IH [OF zs] b ys show ?case by auto
qed

lemma py_mapM_returns_iff:
  "(\<exists>ys. py_mapM f xs = Inr ys) \<longleftrightarrow> (\<forall>x\<in>set xs. \<exists>y. f x = Inr y)"
  by (induction xs) (auto split: sum.splits)

lemma py_filterM_returns_iff:
  "(\<exists>ys. py_filterM p xs = Inr ys) \<longleftrightarrow> (\<forall>x\<in>set xs. \<exists>b. p x = Inr b)"
  using py_filterM_total [of xs p] py_filterM_Inr [of p xs] by blast

lemma py_mapM_compose:
  "(\<exists>ys. py_mapM f xs = Inr ys \<and> py_mapM h ys = Inr zs) \<longleftrightarrow>
     py_mapM (\<lambda>x. py_bind (f x) h) xs = Inr zs"
proof (induction xs arbitrary: zs)
  case Nil
  then show ?case by auto
next
  case (Cons x xs)
  show ?case
  proof (cases "f x")
    case (Inl e)
    then show ?thesis by (simp add: py_bind_def)
  next
    case (Inr y)
    show ?thesis
    proof (cases "h y")
      case (Inl e)
      with Inr show ?thesis by (auto simp: py_bind_def split: sum.splits)
    next
      case hy: (Inr z)
      show ?thesis
      proof (cases "py_mapM (\<lambda>x. py_bind (f x) h) xs")
        case (Inl e)
        with Cons.IH have "\<And>zs ys. py_mapM f xs = Inr ys \<Longrightarrow> py_mapM h ys \<noteq> Inr zs"
          by (metis sum.distinct(1))
        with Inr hy Inl show ?thesis by (auto simp: py_bind_def split: sum.splits)
      next
        case r: (Inr zs')
        with Cons.IH [of zs'] obtain ys where "py_mapM f xs = Inr ys" "py_mapM h ys = Inr zs'"
          by blast
        with Inr hy r show ?thesis by (auto simp: py_bind_def)
      qed
    qed
  qed
qed

subsection \<open>get_review_list\<close>

lemma map_of_dict_setitem: "map_of (dict_setitem kvs k v) = (map_of kvs)(k \<mapsto> v)"
  by (induction kvs) (auto simp: fun_eq_iff)

lemma content_neq_markText: "str ''content'' \<noteq> str ''markText''"
  by (simp add: str_def)

lemma rename_content_Inr:
  "rename_content x = Inr y \<longleftrightarrow>
     (\<exists>kvs v. x = JObj kvs \<and> map_of kvs (str ''content'') = Some v \<and>
              y = JObj (dict_setitem kvs (str ''markText'') v))"
  by (cases x) (auto simp: rename_content_def py_bind_def split: option.splits)

lemma rename_content_keeps:
  assumes "rename_content x = Inr y"
  shows "\<exists>kvs v. y = JObj kvs \<and> map_of kvs (str ''markText'') = Some v \<and>
                 map_of kvs (str ''content'') = Some v"
proof -
  from assms obtain kvs v where x: "x = JObj kvs" and c: "map_of kvs (str ''content'') = Some v"
    and y: "y = JObj (dict_setitem kvs (str ''markText'') v)"
    unfolding rename_content_Inr by blast
  from c content_neq_markText
  have "map_of (dict_setitem kvs (str ''markText'') v) (str ''content'') = Some v"
    by (simp add: map_of_dict_setitem)
  with y show ?thesis by (simp add: map_of_dict_setitem)
qed

text \<open>
  C3. The two output lists are taken from the review list by the two type tests, entries
  of any other type being dropped. But the records of the normal list are not renamed:
  every record that \<open>get_review_list\<close> returns in the normal list carries \<open>markText\<close>
  with the value of \<open>content\<close> and still carries \<open>content\<close> with that value. The field is
  duplicated, not moved.
\<close>

theorem get_review_list_keeps_content:
  assumes "get_review_list r = Inr (summary, normal)" and "y \<in> set normal"
  shows "\<exists>kvs v. y = JObj kvs \<and> map_of kvs (str ''markText'') = Some v \<and>
                 map_of kvs (str ''content'') = Some v"
proof (cases "ok r")
  case False
  with assms show ?thesis by (simp add: get_review_list_def)
next
  case True
  with assms(1) obtain revs where "py_mapM rename_content revs = Inr normal"
    by (auto simp: get_review_list_def py_bind_def split: sum.splits)
  then have "list_all2 (\<lambda>x y. rename_content x = Inr y) revs normal"
    by (simp add: py_mapM_Inr_iff)
  with assms(2) obtain x where "rename_content x = Inr y"
    by (auto simp: list_all2_conv_all_nth in_set_conv_nth)
  then show ?thesis by (rule rename_content_keeps)
qed

text \<open>The response \<^verbatim>\<open>{"reviews": [{"review": {"type": 1, "content": "a"}}]}\<close>.\<close>

theorem get_review_list_keeps_content_witness:
  "get_review_list \<lparr>ok = True, body = Some (JObj [(str ''reviews'',
      JArr [JObj [(str ''review'',
        JObj [(str ''type'', JInt 1), (str ''content'', JStr (str ''a''))])]])])\<rparr>
     = Inr ([], [JObj [(str ''type'', JInt 1), (str ''content'', JStr (str ''a'')),
                       (str ''markText'', JStr (str ''a''))]])
   \<and> map_of [(str ''type'', JInt 1), (str ''content'', JStr (str ''a'')),
              (str ''markText'', JStr (str ''a''))] (str ''content'') = Some (JStr (str ''a''))"
proof -
  let ?r = "\<lparr>ok = True, body = Some (JObj [(str ''reviews'',
      JArr [JObj [(str ''review'',
        JObj [(str ''type'', JInt 1), (str ''content'', JStr (str ''a''))])]])])\<rparr>"
  let ?y = "JObj [(str ''type'', JInt 1), (str ''content'', JStr (str ''a'')),
                  (str ''markText'', JStr (str ''a''))]"
  have e: "get_review_list ?r = Inr ([], [?y])"
    by (simp add: get_review_list_def py_bind_def response_json_def review_type_is_def
          py_eq_def rename_content_def str_def)
  from get_review_list_keeps_content [OF e, of ?y] e show ?thesis
    by (auto simp: str_def)
qed

lemma py_eq_JNull_JInt: "\<not> py_eq JNull (JInt n)"
  by (simp add: py_eq_def)

lemma review_ok_iff:
  "review_ok x \<longleftrightarrow>
     (\<exists>b. review_type_is 4 x = Inr b) \<and> (\<exists>b. review_type_is 1 x = Inr b) \<and>
     (review_type_is 1 x = Inr True \<longrightarrow>
        (\<exists>z. py_bind (dict_get x (str ''review'') JNull) rename_content = Inr z))"
proof (cases x)
  case (JObj w)
  show ?thesis
  proof (cases "map_of w (str ''review'')")
    case None
    with JObj show ?thesis
      by (auto simp: review_ok_def review_type_is_def py_bind_def py_eq_JNull_JInt)
  next
    case (Some rv)
    with JObj show ?thesis
      by (cases rv)
        (auto simp: review_ok_def review_type_is_def py_bind_def py_eq_JNull_JInt
           rename_content_def split: option.splits)
  qed
qed (simp_all add: review_ok_def review_type_is_def py_bind_def)

text \<open>
  C6, as amended. On a response whose status is not a success \<open>get_review_list\<close>
  returns the pair of two empty lists. On a success response whose body is an object
  with a \<open>reviews\<close> list it returns a pair exactly when every entry has the shape
  \<open>review_ok\<close>; on every other such list it raises.
\<close>

theorem get_review_list_returns:
  "(\<not> ok r \<longrightarrow> get_review_list r = Inr ([], [])) \<and>
   (ok r \<and> body r = Some (JObj kvs) \<and> map_of kvs (str ''reviews'') = Some (JArr xs) \<longrightarrow>
      ((\<exists>p. get_review_list r = Inr p) \<longleftrightarrow> list_all review_ok xs))"
proof (intro conjI impI)
  show "\<not> ok r \<Longrightarrow> get_review_list r = Inr ([], [])"
    by (simp add: get_review_list_def)
next
  assume a: "ok r \<and> body r = Some (JObj kvs) \<and> map_of kvs (str ''reviews'') = Some (JArr xs)"
  let ?g = "\<lambda>x. py_bind (dict_get x (str ''review'') JNull) rename_content"
  let ?n = "filter (\<lambda>x. review_type_is 1 x = Inr True) xs"
  have unfold: "get_review_list r =
      py_bind (py_filterM (review_type_is 4) xs) (\<lambda>summary.
      py_bind (py_filterM (review_type_is 1) xs) (\<lambda>reviews.
      py_bind (py_mapM (\<lambda>x. dict_get x (str ''review'') JNull) reviews) (\<lambda>reviews.
      py_bind (py_mapM rename_content reviews) (\<lambda>reviews. Inr (summary, reviews)))))"
    using a by (simp add: get_review_list_def response_json_def py_bind_def)
  have "(\<exists>p. get_review_list r = Inr p) \<longleftrightarrow>
        (\<exists>s. py_filterM (review_type_is 4) xs = Inr s) \<and>
        (\<exists>n. py_filterM (review_type_is 1) xs = Inr n \<and>
           (\<exists>zs ys. py_mapM (\<lambda>x. dict_get x (str ''review'') JNull) n = Inr ys \<and>
                     py_mapM rename_content ys = Inr zs))"
    unfolding unfold by (auto simp: py_bind_def split: sum.splits)
  also have "\<dots> \<longleftrightarrow>
        (\<forall>x\<in>set xs. \<exists>b. review_type_is 4 x = Inr b) \<and>
        (\<forall>x\<in>set xs. \<exists>b. review_type_is 1 x = Inr b) \<and>
        (\<exists>zs. py_mapM ?g ?n = Inr zs)"
    using py_filterM_Inr [of "review_type_is 1" xs] py_filterM_total [of xs "review_type_is 1"]
    by (auto simp: py_filterM_returns_iff py_mapM_compose)
  also have "\<dots> \<longleftrightarrow> list_all review_ok xs"
    by (auto simp: py_mapM_returns_iff list_all_iff review_ok_iff)
  finally show "(\<exists>p. get_review_list r = Inr p) \<longleftrightarrow> list_all review_ok xs" .
qed

theorem get_review_list_returns_witness:
  "get_review_list \<lparr>ok = False, body = None\<rparr> = Inr ([], []) \<and>
   list_all review_ok [JObj [(str ''review'',
        JObj [(str ''type'', JInt 4), (str ''content'', JStr (str ''a''))])]] \<and>
   (\<exists>p. get_review_list \<lparr>ok = True, body = Some (JObj [(str ''reviews'',
      JArr [JObj [(str ''review'',
        JObj [(str ''type'', JInt 4), (str ''content'', JStr (str ''a''))])]])])\<rparr> = Inr p)"
  using get_review_list_returns [of "\<lparr>ok = False, body = None\<rparr>" "[]" "[]"]
    get_review_list_returns [of "\<lparr>ok = True, body = Some (JObj [(str ''reviews'',
      JArr [JObj [(str ''review'',
        JObj [(str ''type'', JInt 4), (str ''content'', JStr (str ''a''))])]])])\<rparr>"
      "[(str ''reviews'',
      JArr [JObj [(str ''review'',
        JObj [(str ''type'', JInt 4), (str ''content'', JStr (str ''a''))])]])]"
      "[JObj [(str ''review'',
        JObj [(str ''type'', JInt 4), (str ''content'', JStr (str ''a''))])]]"]
  by (simp add: review_ok_def py_eq_def str_def)

text \<open>
  The claim as stated fails: a review of type 1 without \<open>content\<close>, in the success
  response \<^verbatim>\<open>{"reviews": [{"review": {"type": 1}}]}\<close>, makes \<^verbatim>\<open>x.pop("content")\<close> raise
  KeyError.
\<close>

theorem get_review_list_raises:
  "get_review_list \<lparr>ok = True, body = Some (JObj [(str ''reviews'',
      JArr [JObj [(str ''review'', JObj [(str ''type'', JInt 1)])]])])\<rparr> = Inl KeyError"
  by (simp add: get_review_list_def py_bind_def response_json_def review_type_is_def
        py_eq_def rename_content_def str_def)

subsection \<open>get_chapter_info\<close>

lemma chapter_step_ok:
  "item_ok item \<Longrightarrow> chapter_step item m = Inr (m(chapter_key item \<mapsto> item))"
  by (cases item) (auto simp: item_ok_def chapter_step_def chapter_key_def py_bind_def
        split: option.splits)

lemma chapter_dict_ok:
  "list_all item_ok items \<Longrightarrow>
     chapter_dict items m = Inr (m ++ map_of (rev (map (\<lambda>item. (chapter_key item, item)) items)))"
proof (induction items arbitrary: m)
  case Nil
  then show ?case by simp
next
  case (Cons item items)
  then show ?case
    by (simp add: chapter_step_ok map_add_upd_left)
qed

text \<open>
  C8, as amended. \<open>get_chapter_info\<close> returns \<open>None\<close> when the status is not a success
  and, for a success response whose body is an object, when the body has no \<open>data\<close> key,
  when \<open>data\<close> is a list whose length is not 1, and when the single element of \<open>data\<close>
  is an object without an \<open>updated\<close> key. When that element has an \<open>updated\<close> list whose
  items are all objects with a hashable \<open>chapterUid\<close>, the result is the mapping that
  sends every \<open>chapterUid\<close> to the last item of the list that carries it; so it sends the
  \<open>chapterUid\<close> of every item to that item when the identifiers of the list are distinct.
\<close>

theorem get_chapter_info_cases:
  "(\<not> ok r \<longrightarrow> get_chapter_info r = Inr None) \<and>
   (ok r \<and> body r = Some (JObj kvs) \<and> map_of kvs (str ''data'') = None
      \<longrightarrow> get_chapter_info r = Inr None) \<and>
   (ok r \<and> body r = Some (JObj kvs) \<and> map_of kvs (str ''data'') = Some (JArr ds) \<and>
    length ds \<noteq> 1 \<longrightarrow> get_chapter_info r = Inr None) \<and>
   (ok r \<and> body r = Some (JObj kvs) \<and> map_of kvs (str ''data'') = Some (JArr [JObj d]) \<and>
    map_of d (str ''updated'') = None \<longrightarrow> get_chapter_info r = Inr None) \<and>
   (ok r \<and> body r = Some (JObj kvs) \<and> map_of kvs (str ''data'') = Some (JArr [JObj d]) \<and>
    map_of d (str ''updated'') = Some (JArr items) \<and> list_all item_ok items
      \<longrightarrow> get_chapter_info r =
            Inr (Some (map_of (rev (map (\<lambda>item. (chapter_key item, item)) items)))) \<and>
          (distinct (map chapter_key items) \<longrightarrow>
             (\<forall>item\<in>set items.
                map_of (rev (map (\<lambda>item. (chapter_key item, item)) items)) (chapter_key item)
                  = Some item)))"
proof (intro conjI impI)
  show "\<not> ok r \<Longrightarrow> get_chapter_info r = Inr None"
    by (simp add: get_chapter_info_def chapter_info_cond_def py_bind_def)
next
  assume "ok r \<and> body r = Some (JObj kvs) \<and> map_of kvs (str ''data'') = None"
  then show "get_chapter_info r = Inr None"
    by (simp add: get_chapter_info_def chapter_info_cond_def py_bind_def response_json_def)
next
  assume "ok r \<and> body r = Some (JObj kvs) \<and> map_of kvs (str ''data'') = Some (JArr ds) \<and>
    length ds \<noteq> 1"
  then show "get_chapter_info r = Inr None"
    by (simp add: get_chapter_info_def chapter_info_cond_def py_bind_def response_json_def)
next
  assume "ok r \<and> body r = Some (JObj kvs) \<and> map_of kvs (str ''data'') = Some (JArr [JObj d]) \<and>
    map_of d (str ''updated'') = None"
  then show "get_chapter_info r = Inr None"
    by (simp add: get_chapter_info_def chapter_info_cond_def py_bind_def response_json_def)
next
  assume "ok r \<and> body r = Some (JObj kvs) \<and> map_of kvs (str ''data'') = Some (JArr [JObj d]) \<and>
    map_of d (str ''updated'') = Some (JArr items) \<and> list_all item_ok items"
  then show "get_chapter_info r =
      Inr (Some (map_of (rev (map (\<lambda>item. (chapter_key item, item)) items))))"
    by (simp add: get_chapter_info_def chapter_info_cond_def py_bind_def response_json_def
          chapter_dict_ok)
next
  assume d: "distinct (map chapter_key items)"
  show "\<forall>item\<in>set items.
      map_of (rev (map (\<lambda>item. (chapter_key item, item)) items)) (chapter_key item) = Some item"
  proof
    fix item assume "item \<in> set items"
    then have "(chapter_key item, item) \<in> set (rev (map (\<lambda>item. (chapter_key item, item)) items))"
      by auto
    moreover from d have "distinct (map fst (rev (map (\<lambda>item. (chapter_key item, item)) items)))"
      by (simp add: rev_map [symmetric] comp_def)
    ultimately show "map_of (rev (map (\<lambda>item. (chapter_key item, item)) items)) (chapter_key item)
        = Some item"
      by (rule map_of_is_SomeI [rotated])
  qed
qed

theorem get_chapter_info_cases_witness:
  "get_chapter_info \<lparr>ok = False, body = None\<rparr> = Inr None \<and>
   get_chapter_info \<lparr>ok = True, body = Some (JObj [])\<rparr> = Inr None \<and>
   get_chapter_info \<lparr>ok = True, body = Some (JObj [(str ''data'', JArr [])])\<rparr> = Inr None \<and>
   get_chapter_info \<lparr>ok = True, body = Some (JObj [(str ''data'', JArr [JObj []])])\<rparr> = Inr None \<and>
   get_chapter_info \<lparr>ok = True, body = Some (JObj [(str ''data'', JArr [JObj [(str ''updated'',
      JArr [JObj [(str ''chapterUid'', JInt 7)]])]])])\<rparr>
     = Inr (Some [JFloat 7 \<mapsto> JObj [(str ''chapterUid'', JInt 7)]])"
  using get_chapter_info_cases [of "\<lparr>ok = False, body = None\<rparr>" "[]" "[]" "[]" "[]"]
    get_chapter_info_cases [of "\<lparr>ok = True, body = Some (JObj [])\<rparr>" "[]" "[]" "[]" "[]"]
    get_chapter_info_cases [of "\<lparr>ok = True, body = Some (JObj [(str ''data'', JArr [])])\<rparr>"
      "[(str ''data'', JArr [])]" "[]" "[]" "[]"]
    get_chapter_info_cases [of "\<lparr>ok = True, body = Some (JObj [(str ''data'', JArr [JObj []])])\<rparr>"
      "[(str ''data'', JArr [JObj []])]" "[]" "[]" "[]"]
    get_chapter_info_cases [of "\<lparr>ok = True, body = Some (JObj [(str ''data'', JArr [JObj [(str ''updated'',
      JArr [JObj [(str ''chapterUid'', JInt 7)]])]])])\<rparr>"
      "[(str ''data'', JArr [JObj [(str ''updated'',
      JArr [JObj [(str ''chapterUid'', JInt 7)]])]])]" "[]" "[(str ''updated'',
      JArr [JObj [(str ''chapterUid'', JInt 7)]])]" "[JObj [(str ''chapterUid'', JInt 7)]]"]
  by (simp add: item_ok_def hashable_def chapter_key_def str_def)

text \<open>
  The claim as stated fails on a success response that passes all four tests: an item
  without \<open>chapterUid\<close> raises KeyError, and of two items with the same \<open>chapterUid\<close> only
  the second one is in the mapping.
\<close>

theorem get_chapter_info_counterexample:
  "get_chapter_info \<lparr>ok = True, body = Some (JObj [(str ''data'', JArr [JObj [(str ''updated'',
      JArr [JObj [(str ''title'', JStr (str ''a''))]])]])])\<rparr> = Inl KeyError \<and>
   (case get_chapter_info \<lparr>ok = True, body = Some (JObj [(str ''data'', JArr [JObj [(str ''updated'',
      JArr [JObj [(str ''chapterUid'', JInt 1), (str ''title'', JStr (str ''a''))],
            JObj [(str ''chapterUid'', JInt 1), (str ''title'', JStr (str ''b''))]])]])])\<rparr> of
      Inr (Some m) \<Rightarrow>
        m (py_norm (JInt 1)) = Some (JObj [(str ''chapterUid'', JInt 1), (str ''title'', JStr (str ''b''))])
        \<and> m (py_norm (JInt 1)) \<noteq> Some (JObj [(str ''chapterUid'', JInt 1), (str ''title'', JStr (str ''a''))])
    | _ \<Rightarrow> False)"
  by (simp add: get_chapter_info_def chapter_info_cond_def py_bind_def response_json_def
        chapter_step_def hashable_def str_def)

subsection \<open>get_bookinfo\<close>

text \<open>
  C9, as amended. On a response whose status is not a success \<open>get_bookinfo\<close> returns
  the default pair \<^verbatim>\<open>("", 0)\<close>. On a success response whose body is an object it returns
  the \<open>isbn\<close> field (default \<^verbatim>\<open>""\<close>) paired with the float nearest to \<open>newRating\<close>
  divided by 1000, when \<open>newRating\<close> is absent, and then taken as 0, or an integer; an
  integer whose quotient is beyond the range of a float raises OverflowError, and a
  \<open>newRating\<close> that is not a number raises TypeError.
\<close>

theorem get_bookinfo_cases:
  "(\<not> ok r \<longrightarrow> get_bookinfo r = Inr (JStr (str ''''), JInt 0)) \<and>
   (ok r \<and> body r = Some (JObj kvs) \<and> map_of kvs (str ''newRating'') = None
      \<longrightarrow> get_bookinfo r =
            Inr (case map_of kvs (str ''isbn'') of None \<Rightarrow> JStr (str '''') | Some i \<Rightarrow> i,
                 JFloat 0)) \<and>
   (ok r \<and> body r = Some (JObj kvs) \<and> map_of kvs (str ''newRating'') = Some (JInt n)
      \<longrightarrow> get_bookinfo r =
            (if 2 ^ 1024 \<le> \<bar>binary64 (real_of_int n / 1000)\<bar> then Inl OverflowError
             else Inr (case map_of kvs (str ''isbn'') of None \<Rightarrow> JStr (str '''') | Some i \<Rightarrow> i,
                       JFloat (binary64 (real_of_int n / 1000))))) \<and>
   (ok r \<and> body r = Some (JObj kvs) \<and> map_of kvs (str ''newRating'') = Some v \<and>
    num_of v = None \<longrightarrow> get_bookinfo r = Inl TypeError)"
proof (intro conjI impI)
  assume "ok r \<and> body r = Some (JObj kvs) \<and> map_of kvs (str ''newRating'') = Some v \<and>
    num_of v = None"
  then show "get_bookinfo r = Inl TypeError"
    by (cases v) (simp_all add: get_bookinfo_def response_json_def py_bind_def truediv_1000_def)
next
  assume "ok r \<and> body r = Some (JObj kvs) \<and> map_of kvs (str ''newRating'') = None"
  then show "get_bookinfo r =
      Inr (case map_of kvs (str ''isbn'') of None \<Rightarrow> JStr (str '''') | Some i \<Rightarrow> i, JFloat 0)"
    by (simp add: get_bookinfo_def response_json_def py_bind_def truediv_1000_def
          int_truediv_1000_def binary64_def split: option.splits)
qed (simp_all add: get_bookinfo_def response_json_def py_bind_def truediv_1000_def
       int_truediv_1000_def Let_def split: option.splits)

text \<open>
  A response with \<open>newRating\<close> 4500 yields the rating 4.5, and one with \<open>newRating\<close> 1
  yields the float next to one thousandth.
\<close>

theorem get_bookinfo_cases_witness:
  "get_bookinfo \<lparr>ok = True, body = Some (JObj [(str ''newRating'', JInt 4500)])\<rparr>
     = Inr (JStr (str ''''), JFloat 4.5)
   \<and> get_bookinfo \<lparr>ok = True, body = Some (JObj [(str ''newRating'', JInt 1)])\<rparr>
     = Inr (JStr (str ''''), JFloat (1152921504606847 / 1152921504606846976))
   \<and> get_bookinfo \<lparr>ok = False, body = None\<rparr> = Inr (JStr (str ''''), JInt 0)"
proof -
  have a: "binary64 (real_of_int 4500 / 1000) = 4.5"
    by (simp add: binary64_def exp_up.simps exp_down.simps pow2_def round_half_even_def Let_def)
  have b: "binary64 (real_of_int 1 / 1000) = 1152921504606847 / 1152921504606846976"
    by (simp add: binary64_def exp_up.simps exp_down.simps pow2_def round_half_even_def Let_def)
  from get_bookinfo_cases [of "\<lparr>ok = True, body = Some (JObj [(str ''newRating'', JInt 4500)])\<rparr>"
      "[(str ''newRating'', JInt 4500)]" 4500 JNull]
    get_bookinfo_cases [of "\<lparr>ok = True, body = Some (JObj [(str ''newRating'', JInt 1)])\<rparr>"
      "[(str ''newRating'', JInt 1)]" 1 JNull]
    get_bookinfo_cases [of "\<lparr>ok = False, body = None\<rparr>" "[]" 0 JNull] a b
  show ?thesis by (simp add: str_def)
qed

text \<open>The claim as stated fails: the success response \<^verbatim>\<open>{"newRating": null}\<close> raises.\<close>

theorem get_bookinfo_raises:
  "get_bookinfo \<lparr>ok = True, body = Some (JObj [(str ''newRating'', JNull)])\<rparr> = Inl TypeError"
  by (simp add: get_bookinfo_def response_json_def py_bind_def truediv_1000_def)

subsection \<open>Construction of the client\<close>

lemma cookie_fold_Some:
  "\<exists>j. snd (fold (\<lambda>(key, v) (cookies_dict, cookiejar).
                   let cookies_dict = cookies_setitem cookies_dict key v
                   in (cookies_dict, Some cookies_dict)) items (d, Some x)) = Some j"
  by (induction items arbitrary: d x) (auto simp: Let_def split: prod.splits)

lemma cookie_fold_None:
  "snd (fold (\<lambda>(key, v) (cookies_dict, cookiejar).
               let cookies_dict = cookies_setitem cookies_dict key v
               in (cookies_dict, Some cookies_dict)) items ([], None)) = None
     \<longleftrightarrow> items = []"
proof (cases items)
  case Nil
  then show ?thesis by simp
next
  case (Cons kv rest)
  obtain k v where kv: "kv = (k, v)" by (cases kv)
  from cookie_fold_Some [of rest "cookies_setitem [] k v" "cookies_setitem [] k v"]
  show ?thesis by (auto simp: Cons kv Let_def)
qed

text \<open>
  C5, as amended. Construction from the empty credential string always fails: with the
  exception of the transport when the probe fails there, and with AttributeError when
  the server answers, since the session has no cookie jar. Construction fails with the
  exception of the transport whenever the probe fails at the transport level, and with
  the CookieError of \<^verbatim>\<open>SimpleCookie.load\<close> when the string cannot be parsed. The client
  raises nothing of its own, and no AuthenticationError. No other path fails: when the
  string holds a cookie and the server answers, construction succeeds.
\<close>

theorem WeReadClient_init_outcomes:
  "WeReadClient_init load send [] =
     Inl (case send None of Inl e \<Rightarrow> e | Inr p \<Rightarrow> AttributeError) \<and>
   (cookie_items load s = Inl e \<longrightarrow> WeReadClient_init load send s = Inl e) \<and>
   (parse_cookie_string load s = Inr jar \<and> send jar = Inl e
      \<longrightarrow> WeReadClient_init load send s = Inl e) \<and>
   (parse_cookie_string load s = Inr None \<and> send None = Inr p
      \<longrightarrow> WeReadClient_init load send s = Inl AttributeError) \<and>
   (parse_cookie_string load s = Inr (Some j) \<and> send (Some j) = Inr p
      \<longrightarrow> WeReadClient_init load send s = Inr \<lparr>cookies = Some j\<rparr>) \<and>
   (cookie_items load s = Inr items
      \<longrightarrow> (parse_cookie_string load s = Inr None \<longleftrightarrow> items = []))"
proof (intro conjI impI)
  show "WeReadClient_init load send [] =
      Inl (case send None of Inl e \<Rightarrow> e | Inr p \<Rightarrow> AttributeError)"
    by (simp add: WeReadClient_init_def parse_cookie_string_def cookie_items_def
          session_get_def py_bind_def split: sum.splits)
next
  assume "cookie_items load s = Inl e"
  then show "WeReadClient_init load send s = Inl e"
    by (simp add: WeReadClient_init_def parse_cookie_string_def py_bind_def)
next
  assume "parse_cookie_string load s = Inr jar \<and> send jar = Inl e"
  then show "WeReadClient_init load send s = Inl e"
    by (simp add: WeReadClient_init_def session_get_def py_bind_def)
next
  assume "parse_cookie_string load s = Inr None \<and> send None = Inr p"
  then show "WeReadClient_init load send s = Inl AttributeError"
    by (simp add: WeReadClient_init_def session_get_def py_bind_def)
next
  assume "parse_cookie_string load s = Inr (Some j) \<and> send (Some j) = Inr p"
  then show "WeReadClient_init load send s = Inr \<lparr>cookies = Some j\<rparr>"
    by (simp add: WeReadClient_init_def session_get_def py_bind_def)
next
  assume "cookie_items load s = Inr items"
  then show "parse_cookie_string load s = Inr None \<longleftrightarrow> items = []"
    by (simp add: parse_cookie_string_def py_bind_def cookie_fold_None)
qed

text \<open>A credential with one cookie: the server answers, or the transport fails.\<close>

theorem WeReadClient_init_outcomes_witness:
  "WeReadClient_init (\<lambda>s. Inr [(str ''wr_skey'', str ''k'')])
      (\<lambda>jar. Inr \<lparr>ok = True, body = None\<rparr>) (str ''wr_skey=k'')
     = Inr \<lparr>cookies = Some [(str ''wr_skey'', str ''k'')]\<rparr> \<and>
   WeReadClient_init (\<lambda>s. Inr [(str ''wr_skey'', str ''k'')])
      (\<lambda>jar. Inl ConnectionError) (str ''wr_skey=k'') = Inl ConnectionError"
proof -
  have p: "parse_cookie_string (\<lambda>s. Inr [(str ''wr_skey'', str ''k'')]) (str ''wr_skey=k'')
      = Inr (Some [(str ''wr_skey'', str ''k'')])"
    by (simp add: parse_cookie_string_def cookie_items_def py_bind_def Let_def str_def)
  from WeReadClient_init_outcomes [of "\<lambda>s. Inr [(str ''wr_skey'', str ''k'')]"
      "\<lambda>jar. Inr \<lparr>ok = True, body = None\<rparr>" "str ''wr_skey=k''" ConnectionError
      "Some [(str ''wr_skey'', str ''k'')]" "\<lparr>ok = True, body = None\<rparr>"
      "[(str ''wr_skey'', str ''k'')]" "[]"]
    WeReadClient_init_outcomes [of "\<lambda>s. Inr [(str ''wr_skey'', str ''k'')]"
      "\<lambda>jar. Inl ConnectionError" "str ''wr_skey=k''" ConnectionError
      "Some [(str ''wr_skey'', str ''k'')]" "\<lparr>ok = True, body = None\<rparr>"
      "[(str ''wr_skey'', str ''k'')]" "[]"] p
  show ?thesis by simp
qed

text \<open>
  The claim as stated fails. Construction from the empty string fails with the
  ConnectionError of the \<^verbatim>\<open>requests\<close> library when the probe fails at the transport
  level, and with AttributeError when the server answers, not with an
  AuthenticationError; and there is another path that fails, the CookieError that
  \<^verbatim>\<open>SimpleCookie.load\<close> raises on the string \<^verbatim>\<open>a@b=c\<close>.
\<close>

theorem WeReadClient_init_not_AuthenticationError:
  "WeReadClient_init (\<lambda>s. Inr []) (\<lambda>jar. Inl ConnectionError) [] = Inl ConnectionError \<and>
   WeReadClient_init (\<lambda>s. Inr []) (\<lambda>jar. Inr \<lparr>ok = True, body = None\<rparr>) []
     = Inl AttributeError \<and>
   WeReadClient_init (\<lambda>s. Inl CookieError) (\<lambda>jar. Inr \<lparr>ok = True, body = None\<rparr>)
      (str ''a@b=c'') = Inl CookieError"
  by (simp add: WeReadClient_init_def parse_cookie_string_def cookie_items_def session_get_def
        py_bind_def str_def)

subsection \<open>get_bookmark_list\<close>

lemma py_insort_linorder:
  fixes g :: "json \<times> 'a \<Rightarrow> 'b::linorder"
  assumes "\<forall>q\<in>set ys. py_lt (fst q) (fst x) = Inr (g q < g x)"
  shows "py_insort x ys = Inr (insort_key g x ys)"
  using assms
proof (induction ys)
  case Nil
  then show ?case by simp
next
  case (Cons y ys)
  then have ih: "py_insort x ys = Inr (insort_key g x ys)"
    and lt: "py_lt (fst y) (fst x) = Inr (g y < g x)" by simp_all
  show ?case
  proof (cases "g y < g x")
    case True
    then have "\<not> g x \<le> g y" by simp
    with True ih lt show ?thesis by simp
  next
    case False
    with lt show ?thesis by (simp add: not_less)
  qed
qed

lemma py_sort_keyed_linorder:
  fixes g :: "json \<times> 'a \<Rightarrow> 'b::linorder"
  assumes "\<forall>p\<in>set kxs. \<forall>q\<in>set kxs. py_lt (fst q) (fst p) = Inr (g q < g p)"
  shows "py_sort_keyed kxs = Inr (sort_key g kxs)"
  using assms
proof (induction kxs)
  case Nil
  then show ?case by simp
next
  case (Cons x kxs)
  then have "py_sort_keyed kxs = Inr (sort_key g kxs)" by simp
  moreover from Cons.prems
  have "\<forall>q\<in>set (sort_key g kxs). py_lt (fst q) (fst x) = Inr (g q < g x)" by simp
  ultimately show ?case by (simp add: py_insort_linorder)
qed

lemma map_snd_insort_key:
  "map snd (insort_key (\<lambda>p. h (snd p)) (k, x) ys) = insort_key h x (map snd ys)"
  by (induction ys) auto

lemma map_snd_sort_key:
  "map snd (sort_key (\<lambda>p. h (snd p)) (map (\<lambda>x. (k x, x)) xs)) = sort_key h xs"
  by (induction xs) (auto simp: map_snd_insort_key)

lemma py_eq_JInt: "py_eq (JInt a) (JInt b) \<longleftrightarrow> a = b"
  by (simp add: py_eq_def)

lemma py_lt_int_pair:
  "py_lt (JArr [JInt a, JInt b]) (JArr [JInt c, JInt d]) = Inr ((a, b) < (c, d))"
  by (auto simp: py_eq_JInt less_prod_def)

lemma py_int_zero: "py_int U (str ''0'') = Inr 0"
  by (simp add: py_int_def int_value_def over_limit_def str_def classify_def decimal_value_def strip_sp_def int_literal_def)

lemma takeWhile_default: "takeWhile (\<lambda>c. c \<noteq> 45) (str ''0-0'') = str ''0''"
  by (simp add: str_def)

lemma bookmark_key_ok:
  assumes "bookmark_ok U x"
  shows "bookmark_key U x = Inr (JArr [JInt (chapter_uid x), JInt (range_start U x)])"
proof -
  from assms obtain kv where x: "x = JObj kv"
    by (cases x) (simp_all add: bookmark_ok_def)
  from assms x have c: "dict_get x (str ''chapterUid'') (JInt 1) = Inr (JInt (chapter_uid x))"
    by (auto simp: bookmark_ok_def chapter_uid_def split: option.splits json.splits)
  from assms x obtain s where s: "dict_get x (str ''range'') (JStr (str ''0-0'')) = Inr (JStr s)"
    and s': "takeWhile (\<lambda>c. c \<noteq> 45) s = [] \<or>
        (\<exists>v. py_int U (takeWhile (\<lambda>c. c \<noteq> 45) s) = Inr v)"
    by (auto simp: bookmark_ok_def takeWhile_default py_int_zero
          split: option.splits json.splits sum.splits)
  have e: "py_int U [] = Inl ValueError"
    by (simp add: py_int_def int_value_def over_limit_def strip_sp_def int_literal_def)
  from s s' e have "(if takeWhile (\<lambda>c. c \<noteq> 45) s = [] then Inr 0
       else py_int U (takeWhile (\<lambda>c. c \<noteq> 45) s)) = Inr (range_start U x)"
    by (auto simp: range_start_def)
  with c s show ?thesis
    by (simp add: bookmark_key_def py_bind_def split_first_def)
qed

lemma py_mapM_total: "\<forall>x\<in>set xs. f x = Inr (g x) \<Longrightarrow> py_mapM f xs = Inr (map g xs)"
  by (induction xs) auto

lemma py_sorted_bookmarks:
  assumes "list_all (bookmark_ok U) xs"
  shows "py_sorted (bookmark_key U) xs
           = Inr (sort_key (\<lambda>x. (chapter_uid x, range_start U x)) xs)"
proof -
  let ?k = "\<lambda>x. JArr [JInt (chapter_uid x), JInt (range_start U x)]"
  let ?h = "\<lambda>x. (chapter_uid x, range_start U x)"
  from assms have "\<forall>x\<in>set xs. py_bind (bookmark_key U x) (\<lambda>k. Inr (k, x)) = Inr (?k x, x)"
    by (simp add: list_all_iff bookmark_key_ok py_bind_def)
  then have m: "py_mapM (\<lambda>x. py_bind (bookmark_key U x) (\<lambda>k. Inr (k, x))) xs
      = Inr (map (\<lambda>x. (?k x, x)) xs)"
    by (rule py_mapM_total)
  have "\<forall>p\<in>set (map (\<lambda>x. (?k x, x)) xs). \<forall>q\<in>set (map (\<lambda>x. (?k x, x)) xs).
      py_lt (fst q) (fst p) = Inr (?h (snd q) < ?h (snd p))"
    by (auto simp: py_eq_JInt less_prod_def)
  then have "py_sort_keyed (map (\<lambda>x. (?k x, x)) xs)
      = Inr (sort_key (\<lambda>p. ?h (snd p)) (map (\<lambda>x. (?k x, x)) xs))"
    by (rule py_sort_keyed_linorder)
  moreover have "map snd (sort_key (\<lambda>p. ?h (snd p)) (map (\<lambda>x. (?k x, x)) xs)) = sort_key ?h xs"
    by (rule map_snd_sort_key)
  ultimately show ?thesis using m
    by (simp add: py_sorted_def py_bind_def)
qed

text \<open>
  C4, as amended. For a success response whose body is an object with an \<open>updated\<close>
  list of entries that all satisfy \<open>bookmark_ok\<close>, \<open>get_bookmark_list\<close> returns the
  entries stably sorted by \<open>chapterUid\<close> (1 when absent) and then by the start of \<open>range\<close>
  (0 when \<open>range\<close> is absent or starts with \<^verbatim>\<open>-\<close>): along the result \<open>chapterUid\<close> never
  decreases, and between consecutive entries of equal \<open>chapterUid\<close> the start of the range
  never decreases.
\<close>

theorem get_bookmark_list_sorted:
  "ok r \<and> body r = Some (JObj kvs) \<and> map_of kvs (str ''updated'') = Some (JArr xs) \<and>
   list_all (bookmark_ok U) xs \<longrightarrow>
     (\<exists>ys. get_bookmark_list U r = Inr (Some ys) \<and>
        ys = sort_key (\<lambda>x. (chapter_uid x, range_start U x)) xs \<and>
        (\<forall>i. Suc i < length ys \<longrightarrow>
           chapter_uid (ys ! i) \<le> chapter_uid (ys ! Suc i) \<and>
           (chapter_uid (ys ! i) = chapter_uid (ys ! Suc i) \<longrightarrow>
              range_start U (ys ! i) \<le> range_start U (ys ! Suc i))))"
proof
  assume a: "ok r \<and> body r = Some (JObj kvs) \<and> map_of kvs (str ''updated'') = Some (JArr xs) \<and>
    list_all (bookmark_ok U) xs"
  let ?h = "\<lambda>x. (chapter_uid x, range_start U x)"
  let ?ys = "sort_key ?h xs"
  from a have r: "get_bookmark_list U r = Inr (Some ?ys)"
    by (simp add: get_bookmark_list_def response_json_def py_bind_def py_sorted_bookmarks)
  have "sorted (map ?h ?ys)" by (rule sorted_sort_key)
  then have "\<forall>i. Suc i < length ?ys \<longrightarrow> ?h (?ys ! i) \<le> ?h (?ys ! Suc i)"
    by (simp add: sorted_iff_nth_Suc)
  then have "\<forall>i. Suc i < length ?ys \<longrightarrow>
           chapter_uid (?ys ! i) \<le> chapter_uid (?ys ! Suc i) \<and>
           (chapter_uid (?ys ! i) = chapter_uid (?ys ! Suc i) \<longrightarrow>
              range_start U (?ys ! i) \<le> range_start U (?ys ! Suc i))"
    by (auto simp: less_eq_prod_def)
  with r show "\<exists>ys. get_bookmark_list U r = Inr (Some ys) \<and>
        ys = sort_key ?h xs \<and>
        (\<forall>i. Suc i < length ys \<longrightarrow>
           chapter_uid (ys ! i) \<le> chapter_uid (ys ! Suc i) \<and>
           (chapter_uid (ys ! i) = chapter_uid (ys ! Suc i) \<longrightarrow>
              range_start U (ys ! i) \<le> range_start U (ys ! Suc i)))"
    by blast
qed

text \<open>
  The scenario of the specification: the bookmarks \<^verbatim>\<open>(2, "10-20")\<close> and \<^verbatim>\<open>(1, "5-9")\<close>
  come back in the order \<^verbatim>\<open>(1, "5-9")\<close>, \<^verbatim>\<open>(2, "10-20")\<close>.
\<close>

theorem get_bookmark_list_sorted_witness:
  "list_all (bookmark_ok ascii_only)
     [JObj [(str ''chapterUid'', JInt 2), (str ''range'', JStr (str ''10-20''))],
      JObj [(str ''chapterUid'', JInt 1), (str ''range'', JStr (str ''5-9''))]] \<and>
   get_bookmark_list ascii_only \<lparr>ok = True, body = Some (JObj [(str ''updated'', JArr
     [JObj [(str ''chapterUid'', JInt 2), (str ''range'', JStr (str ''10-20''))],
      JObj [(str ''chapterUid'', JInt 1), (str ''range'', JStr (str ''5-9''))]])])\<rparr>
     = Inr (Some
     [JObj [(str ''chapterUid'', JInt 1), (str ''range'', JStr (str ''5-9''))],
      JObj [(str ''chapterUid'', JInt 2), (str ''range'', JStr (str ''10-20''))]])"
proof -
  have k: "py_int ascii_only (str ''10'') = Inr 10" "py_int ascii_only (str ''5'') = Inr 5"
    by (simp_all add: py_int_def int_value_def over_limit_def str_def classify_def decimal_value_def strip_sp_def
          int_literal_def)
  have t: "takeWhile (\<lambda>c. c \<noteq> 45) (str ''10-20'') = str ''10''"
    "takeWhile (\<lambda>c. c \<noteq> 45) (str ''5-9'') = str ''5''"
    by (simp_all add: str_def)
  have n: "str ''10'' \<noteq> []" "str ''5'' \<noteq> []" "str ''chapterUid'' \<noteq> str ''range''"
    by (simp_all add: str_def)
  show ?thesis
    using get_bookmark_list_sorted [of
      "\<lparr>ok = True, body = Some (JObj [(str ''updated'', JArr
        [JObj [(str ''chapterUid'', JInt 2), (str ''range'', JStr (str ''10-20''))],
         JObj [(str ''chapterUid'', JInt 1), (str ''range'', JStr (str ''5-9''))]])])\<rparr>"
      "[(str ''updated'', JArr
        [JObj [(str ''chapterUid'', JInt 2), (str ''range'', JStr (str ''10-20''))],
         JObj [(str ''chapterUid'', JInt 1), (str ''range'', JStr (str ''5-9''))]])]"
      "[JObj [(str ''chapterUid'', JInt 2), (str ''range'', JStr (str ''10-20''))],
        JObj [(str ''chapterUid'', JInt 1), (str ''range'', JStr (str ''5-9''))]]"
      ascii_only] k t n
    by (simp add: bookmark_ok_def chapter_uid_def range_start_def less_eq_prod_def)
qed

text \<open>
  The claim as stated fails: a malformed field is not replaced by a default. The range
  \<^verbatim>\<open>"x-1"\<close> makes \<^verbatim>\<open>int("x")\<close> raise ValueError, and a \<open>chapterUid\<close> that is a string
  next to one that is a number makes the comparison of the keys raise TypeError.
\<close>

theorem get_bookmark_list_malformed_raises:
  "get_bookmark_list ascii_only \<lparr>ok = True, body = Some (JObj [(str ''updated'', JArr
     [JObj [(str ''range'', JStr (str ''x-1''))]])])\<rparr> = Inl ValueError \<and>
   get_bookmark_list ascii_only \<lparr>ok = True, body = Some (JObj [(str ''updated'', JArr
     [JObj [(str ''chapterUid'', JStr (str ''a''))],
      JObj [(str ''chapterUid'', JInt 2)]])])\<rparr> = Inl TypeError"
  by (simp add: get_bookmark_list_def response_json_def py_bind_def py_sorted_def
        bookmark_key_def split_first_def py_int_def int_value_def over_limit_def str_def classify_def decimal_value_def
        strip_sp_def int_literal_def ascii_only_def py_eq_def)

subsection \<open>Hexadecimal rendering\<close>

lemma hex_nat_not_Nil: "hex_nat n \<noteq> []"
  by (subst hex_nat.simps) simp

lemma hex_digit_ascii: "d < 16 \<Longrightarrow> hex_digit d < 128"
  by (simp add: hex_digit_def)

lemma hex_nat_ascii: "c \<in> set (hex_nat n) \<Longrightarrow> c < 128"
proof (induction n rule: hex_nat.induct)
  case (1 n)
  show ?case
  proof (cases "n < 16")
    case True
    with "1.prems" show ?thesis
      by (subst (asm) hex_nat.simps) (simp add: hex_digit_ascii)
  next
    case False
    with "1.prems" have "c \<in> set (hex_nat (n div 16)) \<or> c = hex_digit (n mod 16)"
      by (subst (asm) hex_nat.simps) auto
    with False "1.IH" show ?thesis
      by (auto simp: hex_digit_ascii)
  qed
qed

lemma format_x_nat: "format_x (int n) = hex_nat n"
  by (simp add: format_x_def)

lemma format_x_ascii: "c \<in> set (format_x v) \<Longrightarrow> c < 128"
  by (auto simp: format_x_def dest: hex_nat_ascii split: if_splits)

subsection \<open>int on a string of digits\<close>

lemma classify_decimal:
  "decimal_value U c = Some d \<Longrightarrow> classify U c = D d"
  by (auto simp: classify_def decimal_value_def split: if_splits)

lemma map_classify_decimal:
  "list_all (is_decimal U) s \<Longrightarrow> map (classify U) s = map (\<lambda>c. D (digit_of U c)) s"
  by (induction s) (auto simp: is_decimal_def digit_of_def classify_decimal)

lemma int_digits_all:
  "int_digits acc (map (\<lambda>c. D (f c)) s) = Some (foldl (\<lambda>a c. 10 * a + f c) acc s)"
  by (induction s arbitrary: acc) simp_all

lemma strip_sp_digits: "strip_sp (map (\<lambda>c. D (f c)) s) = map (\<lambda>c. D (f c)) s"
proof (cases s rule: rev_cases)
  case Nil
  then show ?thesis by (simp add: strip_sp_def)
next
  case (snoc t c)
  have 1: "dropWhile (\<lambda>t. t = Sp) (map (\<lambda>c. D (f c)) s) = map (\<lambda>c. D (f c)) s"
    by (cases s) simp_all
  have 2: "dropWhile (\<lambda>t. t = Sp) (rev (map (\<lambda>c. D (f c)) s)) = rev (map (\<lambda>c. D (f c)) s)"
    using snoc by simp
  show ?thesis by (simp only: strip_sp_def 1 2 rev_rev_ident)
qed

lemma not_over_limit:
  assumes "length ts \<le> 640"
  shows "\<not> over_limit U ts"
proof -
  have "length (filter is_digit ts) \<le> length ts" by (rule length_filter_le)
  with assms have "\<not> 640 < length (filter is_digit ts)" by arith
  then show ?thesis unfolding over_limit_def Let_def by blast
qed

lemma py_int_digits:
  assumes "list_all (is_decimal U) s" and "s \<noteq> []" and "length s \<le> 640"
  shows "py_int U s = Inr (int (base10 U s))"
proof -
  from assms(2) obtain c t where s: "s = c # t" by (cases s) auto
  have "strip_sp (map (classify U) s) = map (\<lambda>c. D (digit_of U c)) s"
    using assms(1) by (simp add: map_classify_decimal strip_sp_digits)
  moreover have "int_literal (map (\<lambda>c. D (digit_of U c)) s) = Some (base10 U s)"
    by (simp add: s int_literal_def int_digits_all base10_def)
  moreover from assms(3) have "\<not> over_limit U (map (\<lambda>c. D (digit_of U c)) s)"
    by (intro not_over_limit) simp
  ultimately show ?thesis
    by (simp add: py_int_def int_value_def s)
qed

subsection \<open>The numeric loop\<close>

lemma slice_chunk:
  "i < length s \<Longrightarrow> slice s i (min (i + 9) (length s)) = take 9 (drop i s)"
  by (simp add: slice_def min_def)

lemma chunks_of_drop:
  "i < length s \<Longrightarrow> chunks_of 9 (drop i s) = take 9 (drop i s) # chunks_of 9 (drop (i + 9) s)"
  by (subst chunks_of.simps) (simp add: add.commute)

lemma numeric_loop_digits:
  "list_all (is_decimal U) s \<Longrightarrow>
     numeric_loop U s i ary
       = Inr (ary @ map (\<lambda>chunk. hex_nat (base10 U chunk)) (chunks_of 9 (drop i s)))"
proof (induction U s i ary rule: numeric_loop.induct)
  case (1 U s i ary)
  show ?case
  proof (cases "i < length s")
    case False
    then show ?thesis
      by (subst numeric_loop.simps, subst chunks_of.simps) simp
  next
    case True
    let ?c = "take 9 (drop i s)"
    from True have ne: "?c \<noteq> []" by simp
    from "1.prems" have "list_all (is_decimal U) ?c"
      by (auto simp: list_all_iff dest: in_set_takeD in_set_dropD)
    with ne have p: "py_int U ?c = Inr (int (base10 U ?c))"
      by (intro py_int_digits) simp_all
    from True p have
      "numeric_loop U s (i + 9) (ary @ [format_x (int (base10 U ?c))])
         = Inr ((ary @ [format_x (int (base10 U ?c))])
                @ map (\<lambda>chunk. hex_nat (base10 U chunk)) (chunks_of 9 (drop (i + 9) s)))"
      using "1.IH" [of "int (base10 U ?c)"] "1.prems" by (simp add: slice_chunk)
    with True p show ?thesis
      by (subst numeric_loop.simps) (simp add: slice_chunk chunks_of_drop format_x_nat)
  qed
qed

subsection \<open>The generic loop\<close>

lemma fold_index_append:
  "fold (\<lambda>i result. result @ f (s ! i)) [0..<length s] acc = acc @ concat (map f s)"
proof (induction s rule: rev_induct)
  case Nil
  then show ?case by simp
next
  case (snoc x s)
  have "fold (\<lambda>i result. result @ f ((s @ [x]) ! i)) [0..<length s] acc
      = fold (\<lambda>i result. result @ f (s ! i)) [0..<length s] acc"
    by (rule fold_cong) (simp_all add: nth_append)
  with snoc show ?case by simp
qed

lemma generic_loop:
  "fold (\<lambda>i result. result @ format_x (int (s ! i))) [0..<length s] [] = generic_segment s"
  using fold_index_append [of "\<lambda>c. format_x (int c)" s "[]"]
  by (simp add: generic_segment_def format_x_nat)

subsection \<open>transform_id\<close>


lemma decimal_match: "list_all (is_decimal U) s \<Longrightarrow> re_match_digits U s"
  by (simp add: re_match_digits_def is_decimal_def list_all_iff)

lemma transform_id_numeric:
  "list_all (is_decimal U) s \<Longrightarrow> transform_id U s = Inr (str ''3'', numeric_segments U s)"
  by (simp add: transform_id_def decimal_match numeric_loop_digits numeric_segments_def)

lemma transform_id_generic:
  "\<not> re_match_digits U s \<Longrightarrow> transform_id U s = Inr (str ''4'', [generic_segment s])"
  by (simp add: transform_id_def generic_loop)

lemma transform_id_code:
  "transform_id U s = Inr (code, segs) \<Longrightarrow> (code = str ''3'' \<longleftrightarrow> re_match_digits U s)"
  by (auto simp: transform_id_def str_def split: if_splits sum.splits)

lemma ascii_digit_decimal: "ascii_digit c \<Longrightarrow> is_decimal U c \<and> digit_of U c = c - 48"
  by (simp add: ascii_digit_def is_decimal_def digit_of_def decimal_value_def)

lemma ascii_digits_decimal: "list_all ascii_digit s \<Longrightarrow> list_all (is_decimal U) s"
  by (simp add: list_all_iff ascii_digit_decimal)

lemma numeric_loop_ascii:
  "numeric_loop U s i ary = Inr r \<Longrightarrow> \<forall>x\<in>set ary. \<forall>c\<in>set x. c < 128
     \<Longrightarrow> \<forall>x\<in>set r. \<forall>c\<in>set x. c < 128"
proof (induction U s i ary rule: numeric_loop.induct)
  case (1 U s i ary)
  show ?case
  proof (cases "i < length s")
    case False
    with "1.prems" show ?thesis
      by (subst (asm) numeric_loop.simps) simp
  next
    case True
    with "1.prems"(1) obtain v where v: "py_int U (slice s i (min (i + 9) (length s))) = Inr v"
      and r: "numeric_loop U s (i + 9) (ary @ [format_x v]) = Inr r"
      by (subst (asm) numeric_loop.simps) (auto split: sum.splits)
    from "1.prems"(2) have "\<forall>x\<in>set (ary @ [format_x v]). \<forall>c\<in>set x. c < 128"
      by (auto dest: format_x_ascii)
    with "1.IH" [OF True v r] show ?thesis .
  qed
qed

lemma generic_segment_ascii: "c \<in> set (generic_segment s) \<Longrightarrow> c < 128"
  by (auto simp: generic_segment_def dest: hex_nat_ascii)

lemma transform_id_ascii:
  assumes "transform_id U s = Inr (code, segs)"
  shows "(\<forall>c\<in>set code. c < 128) \<and> (\<forall>x\<in>set segs. \<forall>c\<in>set x. c < 128)"
proof (cases "re_match_digits U s")
  case True
  with assms obtain ary where "numeric_loop U s 0 [] = Inr ary" "code = str ''3''" "segs = ary"
    by (auto simp: transform_id_def split: sum.splits)
  with numeric_loop_ascii [of U s 0 "[]" ary] show ?thesis
    by (simp add: str_def)
next
  case False
  with assms transform_id_generic [of U s] show ?thesis
    by (auto simp: str_def dest: generic_segment_ascii)
qed

subsection \<open>The segment loop\<close>

lemma padded_length:
  "(if length (format_x (int (length s))) = 1 then str ''0'' @ format_x (int (length s))
    else format_x (int (length s))) = length_prefix s"
proof -
  define h where "h = hex_nat (length s)"
  have ne: "h \<noteq> []" unfolding h_def by (rule hex_nat_not_Nil)
  have z: "str ''0'' = [of_char CHR ''0'']" by (simp add: str_def)
  have l: "length_prefix s = replicate (2 - length h) (of_char CHR ''0'') @ h"
    by (simp only: length_prefix_def Let_def h_def)
  have f: "format_x (int (length s)) = h" by (simp only: format_x_nat h_def)
  show ?thesis
  proof (cases "length h = 1")
    case True
    then have "replicate (2 - length h) (of_char CHR ''0'' :: nat) = [of_char CHR ''0'']"
      by (simp add: numeral_2_eq_2)
    with True show ?thesis unfolding f l z by simp
  next
    case False
    from ne have "length h \<noteq> 0" by simp
    with False have "2 \<le> length h" by arith
    then have "replicate (2 - length h) (of_char CHR ''0'' :: nat) = []" by simp
    with False show ?thesis unfolding f l by simp
  qed
qed

lemma segment_step_eq:
  assumes "i < length ids"
  shows "segment_step ids i result =
       result @ length_prefix (ids ! i) @ ids ! i @ (if Suc i < length ids then str ''g'' else [])"
proof -
  have c: "(int i < int (length ids) - 1) = (Suc i < length ids)" by auto
  have "segment_step ids i result =
      (if Suc i < length ids then (result @ length_prefix (ids ! i) @ ids ! i) @ str ''g''
       else result @ length_prefix (ids ! i) @ ids ! i)"
    by (simp only: segment_step_def Let_def padded_length c)
  then show ?thesis by simp
qed

lemma segment_loop_from:
  "k \<le> length ids \<Longrightarrow>
     fold (segment_step ids) [k..<length ids] result = result @ join_segments (drop k ids)"
proof (induction "length ids - k" arbitrary: k result)
  case 0
  then show ?case by simp
next
  case (Suc n)
  then have k: "k < length ids" by simp
  then have d: "drop k ids = ids ! k # drop (Suc k) ids"
    by (simp add: Cons_nth_drop_Suc)
  from Suc have ih: "fold (segment_step ids) [Suc k..<length ids] (segment_step ids k result)
      = segment_step ids k result @ join_segments (drop (Suc k) ids)"
    by simp
  from k have u: "[k..<length ids] = k # [Suc k..<length ids]" by (rule upt_conv_Cons)
  have "fold (segment_step ids) [k..<length ids] result
      = fold (segment_step ids) [Suc k..<length ids] (segment_step ids k result)"
    by (simp only: u fold_simps comp_apply)
  also note ih
  also have "segment_step ids k result @ join_segments (drop (Suc k) ids)
      = result @ join_segments (drop k ids)"
  proof (cases "Suc k < length ids")
    case True
    then have "drop (Suc k) ids = ids ! Suc k # drop (Suc (Suc k)) ids"
      by (simp add: Cons_nth_drop_Suc)
    with True d show ?thesis
      by (simp add: segment_step_eq [OF k])
  next
    case False
    with k have "drop (Suc k) ids = []" by simp
    with False d show ?thesis
      by (simp add: segment_step_eq [OF k])
  qed
  finally show ?case .
qed

lemma segment_loop:
  "fold (segment_step ids) [0..<length ids] result = result @ join_segments ids"
  using segment_loop_from [of 0 ids result] by simp

subsection \<open>calculate_book_str_id\<close>

lemma encode_utf8_small: "\<forall>c\<in>set s. c < 256 \<Longrightarrow> encode_utf8 s = Inr (utf8 s)"
  by (auto simp: encode_utf8_def list_ex_iff is_surrogate_def)

lemma str_small: "c \<in> set (str d) \<Longrightarrow> c < 256"
  by (auto simp: str_def)

lemma length_prefix_ascii: "c \<in> set (length_prefix s) \<Longrightarrow> c < 128"
  by (auto simp: length_prefix_def Let_def dest: hex_nat_ascii)

lemma join_segments_small:
  "\<forall>x\<in>set segs. \<forall>c\<in>set x. c < 128 \<Longrightarrow> c \<in> set (join_segments segs) \<Longrightarrow> c < 256"
proof (induction segs rule: join_segments.induct)
  case 1
  then show ?case by simp
next
  case (2 s)
  then show ?case by (auto dest: length_prefix_ascii)
next
  case (3 s t ss)
  then show ?case by (auto simp: str_def dest!: length_prefix_ascii)
qed


lemma head_small:
  assumes "\<forall>c\<in>set code. c < 128" and "\<forall>x\<in>set segs. \<forall>c\<in>set x. c < 128"
  shows "\<forall>c\<in>set (take 3 (str d) @ code @ str ''2'' @ drop (length (str d) - 2) (str d)
            @ join_segments segs). c < 256"
proof
  fix c
  assume "c \<in> set (take 3 (str d) @ code @ str ''2'' @ drop (length (str d) - 2) (str d)
            @ join_segments segs)"
  then consider "c \<in> set (take 3 (str d))" | "c \<in> set code" | "c \<in> set (str ''2'')"
    | "c \<in> set (drop (length (str d) - 2) (str d))" | "c \<in> set (join_segments segs)"
    by auto
  then show "c < 256"
  proof cases
    case 1
    then show ?thesis by (auto dest: in_set_takeD str_small)
  next
    case 2
    with assms(1) show ?thesis by force
  next
    case 3
    then show ?thesis by (rule str_small)
  next
    case 4
    then show ?thesis by (auto dest: in_set_dropD str_small)
  next
    case 5
    with assms(2) show ?thesis by (rule join_segments_small)
  qed
qed

lemma calculate_after_transform:
  assumes e: "encode_utf8 s = Inr bytes" and t: "transform_id U s = Inr (code, segs)"
  shows "calculate_book_str_id md5 U s = Inr (web_identifier md5 (str (md5 bytes)) code segs)"
proof -
  define d where "d = str (md5 bytes)"
  define head where
    "head = take 3 d @ code @ str ''2'' @ drop (length d - 2) d @ join_segments segs"
  define padded where
    "padded = (if length head < 20 then head @ take (20 - length head) d else head)"
  from transform_id_ascii [OF t] have h: "\<forall>c\<in>set head. c < 256"
    unfolding head_def d_def by (intro head_small) auto
  have "\<forall>c\<in>set padded. c < 256"
  proof
    fix c assume "c \<in> set padded"
    then have "c \<in> set head \<or> c \<in> set (take (20 - length head) d)"
      by (auto simp: padded_def split: if_splits)
    with h show "c < 256" by (auto simp: d_def dest: in_set_takeD str_small)
  qed
  then have enc: "encode_utf8 padded = Inr (utf8 padded)" by (rule encode_utf8_small)
  have w: "web_identifier md5 (str (md5 bytes)) code segs
      = padded @ take 3 (str (md5 (utf8 padded)))"
    by (simp only: web_identifier_def Let_def d_def head_def padded_def)
  have hd: "fold (segment_step segs) [0..<length segs]
      (take 3 d @ code @ str ''2'' @ drop (length d - 2) d) = head"
    by (simp add: segment_loop head_def)
  have "calculate_book_str_id md5 U s
      = py_bind (encode_utf8 padded) (\<lambda>b. Inr (padded @ take 3 (str (md5 b))))"
    by (simp only: calculate_book_str_id_def e t py_bind_def sum.case prod.case Let_def
          d_def [symmetric] hd padded_def [symmetric])
  with enc w show ?thesis by (simp add: py_bind_def)
qed

lemma length_hex_nat_small: "n < 16 \<Longrightarrow> length (hex_nat n) = 1"
  by (subst hex_nat.simps) simp

lemma length_hex_nat_step: "16 \<le> n \<Longrightarrow> length (hex_nat n) = Suc (length (hex_nat (n div 16)))"
  by (subst hex_nat.simps) simp

lemma length_prefix_width:
  "(length s < 256 \<longrightarrow> length (length_prefix s) = 2) \<and>
   (256 \<le> length s \<longrightarrow> 3 \<le> length (length_prefix s))"
proof (intro conjI impI)
  assume a: "length s < 256"
  show "length (length_prefix s) = 2"
  proof (cases "length s < 16")
    case True
    then show ?thesis by (simp add: length_prefix_def Let_def length_hex_nat_small)
  next
    case False
    with a have "length s div 16 < 16" by simp
    with False show ?thesis
      by (simp add: length_prefix_def Let_def length_hex_nat_step length_hex_nat_small)
  qed
next
  assume a: "256 \<le> length s"
  then have 1: "16 \<le> length s" and 2: "16 \<le> length s div 16" by simp_all
  obtain x xs where "hex_nat (length s div 16 div 16) = x # xs"
    using hex_nat_not_Nil [of "length s div 16 div 16"]
    by (cases "hex_nat (length s div 16 div 16)") auto
  with 1 2 have "3 \<le> length (hex_nat (length s))"
    by (simp add: length_hex_nat_step)
  then show "3 \<le> length (length_prefix s)"
    by (simp add: length_prefix_def Let_def)
qed

text \<open>
  C1, as amended. For every identifier that has a UTF-8 encoding and on which
  \<open>transform_id\<close> returns, \<open>calculate_book_str_id\<close> returns the construction of the
  specification: the first three characters of the MD5 digest of the UTF-8 bytes of the
  identifier, the mode code of \<open>transform_id\<close>, the character \<^verbatim>\<open>2\<close>, the last two
  characters of the digest, the segments of \<open>transform_id\<close> with their hexadecimal
  length in front and \<^verbatim>\<open>g\<close> between them, the padding to 20 characters from the start of
  the digest, and the first three characters of the digest of all that
  (\<open>web_identifier\<close>). When the encoding of the identifier or \<open>transform_id\<close> raises, the
  call raises the same exception. The length in front of a segment is padded with zeros
  to two digits: it has two digits for a segment of fewer than 256 characters and three
  or more for a longer one.
\<close>

theorem calculate_book_str_id_construction:
  "(encode_utf8 book_id = Inr bytes \<and> transform_id U book_id = Inr (code, segments) \<longrightarrow>
      calculate_book_str_id md5 U book_id
        = Inr (web_identifier md5 (str (md5 bytes)) code segments)) \<and>
   (encode_utf8 book_id = Inl e \<longrightarrow> calculate_book_str_id md5 U book_id = Inl e) \<and>
   (encode_utf8 book_id = Inr bytes \<and> transform_id U book_id = Inl e \<longrightarrow>
      calculate_book_str_id md5 U book_id = Inl e) \<and>
   (length s < 256 \<longrightarrow> length (length_prefix s) = 2) \<and>
   (256 \<le> length s \<longrightarrow> 3 \<le> length (length_prefix s))"
proof (intro conjI impI)
  assume "encode_utf8 book_id = Inr bytes \<and> transform_id U book_id = Inr (code, segments)"
  then show "calculate_book_str_id md5 U book_id
      = Inr (web_identifier md5 (str (md5 bytes)) code segments)"
    by (simp add: calculate_after_transform)
next
  assume "encode_utf8 book_id = Inl e"
  then show "calculate_book_str_id md5 U book_id = Inl e"
    by (simp add: calculate_book_str_id_def py_bind_def)
next
  assume "encode_utf8 book_id = Inr bytes \<and> transform_id U book_id = Inl e"
  then show "calculate_book_str_id md5 U book_id = Inl e"
    by (simp add: calculate_book_str_id_def py_bind_def Let_def)
next
  assume "length s < 256"
  then show "length (length_prefix s) = 2" using length_prefix_width [of s] by simp
next
  assume "256 \<le> length s"
  then show "3 \<le> length (length_prefix s)" using length_prefix_width [of s] by simp
qed

text \<open>The identifier \<^verbatim>\<open>12\<close>, with a digest function that returns the same text for all bytes.\<close>

theorem calculate_book_str_id_construction_witness:
  "encode_utf8 (str ''12'') = Inr (utf8 (str ''12'')) \<and>
   transform_id ascii_only (str ''12'') = Inr (str ''3'', [str ''c'']) \<and>
   calculate_book_str_id (\<lambda>bytes. ''0123456789abcdef0123456789abcdef'') ascii_only (str ''12'')
     = Inr (str ''01232ef01c0123456789012'') \<and>
   length (length_prefix (str ''c'')) = 2"
proof -
  have e: "encode_utf8 (str ''12'') = Inr (utf8 (str ''12''))"
    by (simp add: encode_utf8_def is_surrogate_def str_def)
  have t: "transform_id ascii_only (str ''12'') = Inr (str ''3'', [str ''c''])"
    by (simp add: transform_id_def re_match_digits_def decimal_value_def str_def
          numeric_loop.simps slice_def py_int_def int_value_def over_limit_def strip_sp_def
          classify_def int_literal_def format_x_def hex_nat.simps hex_digit_def ascii_only_def)
  have w: "web_identifier (\<lambda>bytes. ''0123456789abcdef0123456789abcdef'')
      (str ''0123456789abcdef0123456789abcdef'') (str ''3'') [str ''c'']
      = str ''01232ef01c0123456789012''"
    by (simp add: web_identifier_def length_prefix_def Let_def hex_nat.simps hex_digit_def
          str_def)
  from calculate_book_str_id_construction
    [of "str ''12''" "utf8 (str ''12'')" ascii_only "str ''3''" "[str ''c'']"
        "\<lambda>bytes. ''0123456789abcdef0123456789abcdef''" UnicodeEncodeError "str ''c''"] e t w
  show ?thesis by (simp add: str_def)
qed

text \<open>
  The claim as stated fails. The identifier of nine digits and a newline matches the
  pattern of the numeric mode, its second chunk is the newline alone, and \<^verbatim>\<open>int("\n")\<close>
  raises ValueError: the call returns no string. And the identifier of 128 letters
  \<^verbatim>\<open>a\<close> has one segment of 256 characters, whose length is written with the three
  digits \<^verbatim>\<open>100\<close>, not with two.
\<close>

theorem calculate_book_str_id_not_always:
  "calculate_book_str_id (\<lambda>bytes. ''0123456789abcdef0123456789abcdef'') ascii_only
      (str ''123456789'' @ [10]) = Inl ValueError \<and>
   calculate_book_str_id (\<lambda>bytes. ''0123456789abcdef0123456789abcdef'') ascii_only
      (replicate 128 97)
     = Inr (str ''01242ef100'' @ concat (replicate 128 (str ''61'')) @ str ''012'')"
proof
  show "calculate_book_str_id (\<lambda>bytes. ''0123456789abcdef0123456789abcdef'') ascii_only
      (str ''123456789'' @ [10]) = Inl ValueError"
    by (simp add: calculate_book_str_id_def py_bind_def encode_utf8_def is_surrogate_def Let_def
        transform_id_def re_match_digits_def decimal_value_def numeric_loop.simps
        slice_def py_int_def int_value_def over_limit_def strip_sp_def classify_def
        int_literal_def ascii_only_def str_def)
next
  let ?b = "replicate 128 (97 :: nat)"
  let ?seg = "concat (replicate 128 [54, 49 :: nat])"
  have e: "encode_utf8 ?b = Inr (utf8 ?b)"
    by (simp add: encode_utf8_def list_ex_iff is_surrogate_def)
  have m: "\<not> re_match_digits ascii_only ?b"
    by (simp add: re_match_digits_def list_all_iff decimal_value_def)
  have g: "generic_segment ?b = ?seg"
    by (simp add: generic_segment_def hex_nat.simps hex_digit_def)
  have t: "transform_id ascii_only ?b = Inr (str ''4'', [?seg])"
    using transform_id_generic [OF m] g by simp
  have l: "length ?seg = 256"
    by (simp add: length_concat sum_list_replicate)
  have lp: "length_prefix ?seg = [49, 48, 48]"
    by (simp only: length_prefix_def l Let_def) (simp add: hex_nat.simps hex_digit_def)
  have "web_identifier (\<lambda>bytes. ''0123456789abcdef0123456789abcdef'')
      (str ((\<lambda>bytes. ''0123456789abcdef0123456789abcdef'') (utf8 ?b))) (str ''4'') [?seg]
      = str ''01242ef100'' @ ?seg @ str ''012''"
    by (simp add: web_identifier_def Let_def lp l str_def)
  with calculate_after_transform [OF e t, of "\<lambda>bytes. ''0123456789abcdef0123456789abcdef''"]
  show "calculate_book_str_id (\<lambda>bytes. ''0123456789abcdef0123456789abcdef'') ascii_only ?b
     = Inr (str ''01242ef100'' @ concat (replicate 128 (str ''61'')) @ str ''012'')"
    by (simp add: str_def)
qed




text \<open>
  C2, as amended. For every string of decimal digits, and so for every string of ASCII
  decimal digits, where the value of a digit is its code minus 48, \<open>transform_id\<close>
  returns the mode code \<^verbatim>\<open>3\<close> with the chunks of at most 9 digits, from the left, each
  read in base 10 and written in lowercase hexadecimal. For every string that the pattern
  \<^verbatim>\<open>^\d*$\<close> does not match it returns the mode code \<^verbatim>\<open>4\<close> with the single segment of the
  hexadecimal code points of all characters. Whenever it returns, the mode code is \<^verbatim>\<open>3\<close>
  exactly when the pattern matches.
\<close>

theorem transform_id_modes:
  "(list_all (is_decimal U) book_id \<longrightarrow>
      transform_id U book_id = Inr (str ''3'', numeric_segments U book_id)) \<and>
   (list_all ascii_digit book_id \<longrightarrow>
      list_all (is_decimal U) book_id \<and> (\<forall>c\<in>set book_id. digit_of U c = c - 48)) \<and>
   (\<not> re_match_digits U book_id \<longrightarrow>
      transform_id U book_id = Inr (str ''4'', [generic_segment book_id])) \<and>
   (transform_id U book_id = Inr (code, segments) \<longrightarrow>
      (code = str ''3'' \<longleftrightarrow> re_match_digits U book_id))"
  by (auto simp: transform_id_numeric transform_id_generic ascii_digits_decimal
        list_all_iff ascii_digit_decimal dest: transform_id_code)

text \<open>The identifiers \<^verbatim>\<open>123456789012\<close> and \<^verbatim>\<open>ab\<close>.\<close>

theorem transform_id_modes_witness:
  "list_all ascii_digit (str ''123456789012'') \<and>
   transform_id ascii_only (str ''123456789012'')
     = Inr (str ''3'', [str ''75bcd15'', str ''c'']) \<and>
   \<not> re_match_digits ascii_only (str ''ab'') \<and>
   transform_id ascii_only (str ''ab'') = Inr (str ''4'', [str ''6162''])"
proof -
  have d: "list_all ascii_digit (str ''123456789012'')"
    by (simp add: ascii_digit_def str_def)
  have n: "\<not> re_match_digits ascii_only (str ''ab'')"
    by (simp add: re_match_digits_def decimal_value_def str_def)
  have s: "numeric_segments ascii_only (str ''123456789012'') = [str ''75bcd15'', str ''c'']"
    by (simp add: numeric_segments_def chunks_of.simps base10_def digit_of_def
          decimal_value_def hex_nat.simps hex_digit_def str_def)
  have g: "generic_segment (str ''ab'') = str ''6162''"
    by (simp add: generic_segment_def hex_nat.simps hex_digit_def str_def)
  from transform_id_modes [of ascii_only "str ''123456789012''" "[]" "[]"]
    transform_id_modes [of ascii_only "str ''ab''" "[]" "[]"] d n s g
  show ?thesis by simp
qed

text \<open>
  The claim as stated fails: the mode code is \<^verbatim>\<open>3\<close> for strings that do not consist of
  ASCII digits only, such as the digit \<^verbatim>\<open>1\<close> followed by a newline, and the two
  Arabic-Indic digits U+0661 U+0662, which denote twelve.
\<close>

theorem transform_id_not_only_ascii_digits:
  "transform_id ascii_only (str ''1'' @ [10]) = Inr (str ''3'', [str ''1'']) \<and>
   \<not> list_all ascii_digit (str ''1'' @ [10]) \<and>
   transform_id arabic_indic [1633, 1634] = Inr (str ''3'', [str ''c'']) \<and>
   \<not> list_all ascii_digit [1633, 1634]"
  by (simp add: transform_id_def re_match_digits_def decimal_value_def str_def
        numeric_loop.simps slice_def py_int_def int_value_def over_limit_def strip_sp_def classify_def int_literal_def
        format_x_def hex_nat.simps hex_digit_def ascii_only_def arabic_indic_def ascii_digit_def)

subsection \<open>The partition of the review list\<close>

lemma review_types_disjoint:
  "review_type_is 4 x = Inr True \<Longrightarrow> review_type_is 1 x \<noteq> Inr True"
  by (auto simp: review_type_is_def py_bind_def py_eq_def split: sum.splits)

text \<open>
  X1. Whenever \<open>get_review_list\<close> returns on a success response whose body is an object
  with a \<open>reviews\<close> list, the summary list is the sublist of the entries whose type is 4,
  in order; the normal list holds, in order, one record for every entry whose type is 1,
  made from the \<open>review\<close> field of that entry; and no entry of the summary list has type
  1. Entries of every other type are in neither list.
\<close>

theorem get_review_list_partition:
  "ok r \<and> body r = Some (JObj kvs) \<and> map_of kvs (str ''reviews'') = Some (JArr xs) \<and>
   get_review_list r = Inr (summary, normal) \<longrightarrow>
     summary = filter (\<lambda>x. review_type_is 4 x = Inr True) xs \<and>
     list_all2 (\<lambda>x y. py_bind (dict_get x (str ''review'') JNull) rename_content = Inr y)
       (filter (\<lambda>x. review_type_is 1 x = Inr True) xs) normal \<and>
     (\<forall>x\<in>set summary. review_type_is 1 x \<noteq> Inr True)"
proof
  assume a: "ok r \<and> body r = Some (JObj kvs) \<and> map_of kvs (str ''reviews'') = Some (JArr xs) \<and>
    get_review_list r = Inr (summary, normal)"
  then have o: "ok r" and b: "body r = Some (JObj kvs)"
    and k: "map_of kvs (str ''reviews'') = Some (JArr xs)"
    and g: "get_review_list r = Inr (summary, normal)"
    by simp_all
  have "get_review_list r = py_bind (py_filterM (review_type_is 4) xs) (\<lambda>summary.
      py_bind (py_filterM (review_type_is 1) xs) (\<lambda>reviews.
      py_bind (py_mapM (\<lambda>x. dict_get x (str ''review'') JNull) reviews) (\<lambda>reviews.
      py_bind (py_mapM rename_content reviews) (\<lambda>reviews. Inr (summary, reviews)))))"
    using o b k by (simp add: get_review_list_def response_json_def py_bind_def)
  with g have "py_bind (py_filterM (review_type_is 4) xs) (\<lambda>summary.
      py_bind (py_filterM (review_type_is 1) xs) (\<lambda>reviews.
      py_bind (py_mapM (\<lambda>x. dict_get x (str ''review'') JNull) reviews) (\<lambda>reviews.
      py_bind (py_mapM rename_content reviews) (\<lambda>reviews. Inr (summary, reviews)))))
      = Inr (summary, normal)"
    by simp
  then obtain n ys where s: "py_filterM (review_type_is 4) xs = Inr summary"
    and n: "py_filterM (review_type_is 1) xs = Inr n"
    and ys: "py_mapM (\<lambda>x. dict_get x (str ''review'') JNull) n = Inr ys"
    and zs: "py_mapM rename_content ys = Inr normal"
    by (auto simp: py_bind_def split: sum.splits)
  from s have s': "summary = filter (\<lambda>x. review_type_is 4 x = Inr True) xs"
    by (simp add: py_filterM_Inr)
  from n have n': "n = filter (\<lambda>x. review_type_is 1 x = Inr True) xs"
    by (simp add: py_filterM_Inr)
  from ys zs have "py_mapM (\<lambda>x. py_bind (dict_get x (str ''review'') JNull) rename_content) n
      = Inr normal"
    using py_mapM_compose [of "\<lambda>x. dict_get x (str ''review'') JNull" n rename_content normal]
    by blast
  then have "list_all2 (\<lambda>x y. py_bind (dict_get x (str ''review'') JNull) rename_content = Inr y)
      n normal"
    by (simp add: py_mapM_Inr_iff)
  with s' n' show "summary = filter (\<lambda>x. review_type_is 4 x = Inr True) xs \<and>
     list_all2 (\<lambda>x y. py_bind (dict_get x (str ''review'') JNull) rename_content = Inr y)
       (filter (\<lambda>x. review_type_is 1 x = Inr True) xs) normal \<and>
     (\<forall>x\<in>set summary. review_type_is 1 x \<noteq> Inr True)"
    by (auto dest: review_types_disjoint)
qed

text \<open>A list with one review of type 4 and one of type 2.\<close>

theorem get_review_list_partition_witness:
  "get_review_list \<lparr>ok = True, body = Some (JObj [(str ''reviews'', JArr
      [JObj [(str ''review'', JObj [(str ''type'', JInt 4)])],
       JObj [(str ''review'', JObj [(str ''type'', JInt 2)])]])])\<rparr>
     = Inr ([JObj [(str ''review'', JObj [(str ''type'', JInt 4)])]], []) \<and>
   filter (\<lambda>x. review_type_is 4 x = Inr True)
      [JObj [(str ''review'', JObj [(str ''type'', JInt 4)])],
       JObj [(str ''review'', JObj [(str ''type'', JInt 2)])]]
     = [JObj [(str ''review'', JObj [(str ''type'', JInt 4)])]]"
proof -
  let ?xs = "[JObj [(str ''review'', JObj [(str ''type'', JInt 4)])],
       JObj [(str ''review'', JObj [(str ''type'', JInt 2)])]]"
  let ?r = "\<lparr>ok = True, body = Some (JObj [(str ''reviews'', JArr ?xs)])\<rparr>"
  have e: "get_review_list ?r = Inr ([JObj [(str ''review'', JObj [(str ''type'', JInt 4)])]], [])"
    by (simp add: get_review_list_def py_bind_def response_json_def review_type_is_def
          py_eq_def str_def)
  from get_review_list_partition [of ?r "[(str ''reviews'', JArr ?xs)]" ?xs
      "[JObj [(str ''review'', JObj [(str ''type'', JInt 4)])]]" "[]"] e
  show ?thesis by simp
qed

end
